theory Spec2Isabelle
  imports Complex_Main
begin

section \<open>The simulation tick of the umbrella glide game\<close>

text \<open>
  The development embeds the function \<^verbatim>\<open>update\<close> of
  \<^verbatim>\<open>src/components/GameCanvas.tsx\<close> (lines 300 to 1128), the spawners it calls
  (lines 139 to 249) and the level table of \<^verbatim>\<open>src/services/challengeLevels.ts\<close>.

  JavaScript numbers are modelled as \<^typ>\<open>real\<close>: the claims below depend on
  comparisons, sums and products only, never on rounding. Counters that the source
  only ever sets to integer literals and steps by one (the raw score, the power-up
  timers, the animation timers, the frame counter) are \<^typ>\<open>int\<close> or \<^typ>\<open>nat\<close>.
  Each call of \<^verbatim>\<open>Math.random()\<close> that decides gameplay is a field of the record
  \<open>Rnd\<close>, and \<^verbatim>\<open>Date.now()\<close> is the field \<open>now\<close> of the environment.

  State that only the draw pass reads is left out: the particle list, the background
  elements, screen shake, lightning, the banking angle, the umbrella animation value,
  the spin and bounce animations, the entity ids, and the audio callbacks. No value of
  the model below is computed from any of them in the source.
\<close>

subsection \<open>Data model (src/types.ts)\<close>

datatype GameState = START | PLAYING | GAME_OVER

datatype GameMode = ENDLESS | STORM | CHALLENGE

datatype DifficultyMode = EASY | MEDIUM | HARD

datatype ObstacleType = BIRD | CLOUD | BUILDING | BALLOON

datatype PowerUpType = SLOW_MOTION | SHIELD | WIND_BREAKER | SUPER_GLIDE

datatype ObjectiveType = SURVIVE_TIME | REACH_DEPTH | COLLECT_COINS | NO_DAMAGE | AVOID_OBSTACLES

record Obstacle =
  ox :: real
  oy :: real
  owidth :: real
  oheight :: real
  otype :: ObstacleType
  speedX :: real

record WindZone =
  zx :: real
  zy :: real
  zwidth :: real
  zheight :: real
  zvx :: real
  zvy :: real

record PowerUp =
  pux :: real
  puy :: real
  puwidth :: real
  puheight :: real
  putype :: PowerUpType
  pucollected :: bool

record ActivePowerUp =
  atype :: PowerUpType
  timeLeft :: int
  duration :: int

record Coin =
  cx :: real
  cy :: real
  cwidth :: real
  cheight :: real
  ccollected :: bool
  spin :: real

record ChallengObjective =
  jtype :: ObjectiveType
  target :: real
  current :: real
  completed :: bool

record LevelProgress =
  objectives :: "ChallengObjective list"
  startTime :: real
  timeElapsed :: real

text \<open>The mutable cells of the component (\<^verbatim>\<open>playerRef\<close>, \<^verbatim>\<open>windGustRef\<close>, ...).\<close>

record Player =
  px :: real
  py :: real
  vx :: real
  vy :: real
  isUmbrellaOpen :: bool
  targetX :: real
  isDancing :: bool
  danceTimer :: int
  umbrellaIsBroken :: bool
  brokenTimer :: int

record WindGust =
  gactive :: bool
  gvx :: real
  gvy :: real
  gtimeLeft :: real

text \<open>
  The cause string handed to the game-over sink: \<^verbatim>\<open>LEVEL n COMPLETE!\<close> from the
  objective tracker, \<^verbatim>\<open>Hit a <type>\<close> from the obstacle loop.
\<close>

datatype Cause = LevelComplete nat | HitA ObstacleType

text \<open>
  \<open>World\<close> holds every cell the tick reads or writes, the level progress the
  application shares with the component (its objective objects are mutated in place by
  the tick), and what the tick hands to its sinks: \<open>gameOvers\<close> lists the calls of
  \<^verbatim>\<open>onGameOver\<close> in order, \<open>coinCollects\<close> counts the calls of
  \<^verbatim>\<open>onCoinCollect\<close>. \<open>returned\<close> records that the tick has executed
  \<^verbatim>\<open>return\<close> inside the obstacle loop.
\<close>

record World =
  score :: int
  player :: Player
  windGust :: WindGust
  obstacles :: "Obstacle list"
  windZones :: "WindZone list"
  powerUps :: "PowerUp list"
  activePowerUps :: "ActivePowerUp list"
  coins :: "Coin list"
  frameCount :: nat
  levelProgress :: "LevelProgress option"
  gameOvers :: "(int \<times> Cause) list"
  coinCollects :: nat
  returned :: bool

text \<open>
  The props of the component and the canvas size, as one tick sees them. The
  application passes a fresh \<^verbatim>\<open>onGameOver\<close> with every render, so the callback
  \<^verbatim>\<open>update\<close> is rebuilt with the props of that render. The optional callback
  \<^verbatim>\<open>onCoinCollect\<close> is taken as given, as the application gives it.
\<close>

record Env =
  gameState :: GameState
  isPaused :: bool
  difficultyMode :: DifficultyMode
  gameMode :: GameMode
  selectedChallengeLevel :: "nat option"
  canvasWidth :: real
  canvasHeight :: real
  now :: real

text \<open>One field for each \<^verbatim>\<open>Math.random()\<close> call that reaches gameplay state.\<close>

record Rnd =
  gustRoll :: real
  gustDirection :: real
  gustStrength :: real
  gustLift :: real
  gustTime :: real
  obsTypeRoll :: real
  obsX :: real
  obsSpeed :: real
  obsWidth :: real
  obsSide :: real
  zoneWidth :: real
  zoneHeight :: real
  zoneX :: real
  zoneTypeRoll :: real
  zoneDirection :: real
  zoneMagnitude :: real
  puTypeRoll :: real
  puX :: real
  coinX :: real

subsection \<open>Difficulty and the multipliers derived from it (lines 303 to 348)\<close>

definition BASE_GRAVITY :: real where "BASE_GRAVITY = 0.5"
definition BASE_GLIDE_GRAVITY :: real where "BASE_GLIDE_GRAVITY = 0.15"
definition BASE_TERMINAL_VELOCITY :: real where "BASE_TERMINAL_VELOCITY = 15"
definition BASE_GLIDE_TERMINAL_VELOCITY :: real where "BASE_GLIDE_TERMINAL_VELOCITY = 3"
definition WORLD_SPEED_MULTIPLIER_MAX :: real where "WORLD_SPEED_MULTIPLIER_MAX = 2.0"

text \<open>\<^verbatim>\<open>Math.min(Math.max(0, currentScore - 200) / 5000, 1)\<close>\<close>

definition difficulty :: "real \<Rightarrow> real" where
  "difficulty currentScore = min (max 0 (currentScore - 200) / 5000) 1"

definition modeMultiplier :: "DifficultyMode \<Rightarrow> real" where
  "modeMultiplier m = (case m of EASY \<Rightarrow> 0.35 | MEDIUM \<Rightarrow> 1.0 | HARD \<Rightarrow> 1.5)"

definition isStormMode :: "Env \<Rightarrow> bool" where
  "isStormMode E = (gameMode E = STORM)"

definition stormModeMultiplier :: "Env \<Rightarrow> real" where
  "stormModeMultiplier E = (if isStormMode E then 2.0 else 1)"

definition obstacleSpawnRate :: "Env \<Rightarrow> real \<Rightarrow> int" where
  "obstacleSpawnRate E d =
     \<lfloor>max 20 (60 - d * 35 * modeMultiplier (difficultyMode E) * stormModeMultiplier E)\<rfloor>"

definition windZoneSpawnRate :: "Env \<Rightarrow> real \<Rightarrow> int" where
  "windZoneSpawnRate E d =
     \<lfloor>max 80 (240 - d * 160 * modeMultiplier (difficultyMode E) * stormModeMultiplier E)\<rfloor>"

definition gustProbability :: "Env \<Rightarrow> real \<Rightarrow> real" where
  "gustProbability E d =
     0.001 + d * 0.008 * modeMultiplier (difficultyMode E) + (if isStormMode E then 0.01 else 0)"

definition hasPowerUp :: "PowerUpType \<Rightarrow> ActivePowerUp list \<Rightarrow> bool" where
  "hasPowerUp t ps = list_ex (\<lambda>p. atype p = t) ps"

definition worldSpeedMultiplier :: "Env \<Rightarrow> real \<Rightarrow> bool \<Rightarrow> real" where
  "worldSpeedMultiplier E d hasSlowMotion =
     (let m = 1.0 + d * (WORLD_SPEED_MULTIPLIER_MAX - 1.0) * modeMultiplier (difficultyMode E)
      in if hasSlowMotion then m * 0.5 else m)"

definition gravityMultiplier :: "Env \<Rightarrow> real \<Rightarrow> real" where
  "gravityMultiplier E d = 1.0 + d * 0.8 * modeMultiplier (difficultyMode E)"

definition scoreMultiplier :: "Env \<Rightarrow> real \<Rightarrow> real" where
  "scoreMultiplier E d =
     (let m = 1.0 + d * 1.5 in if isStormMode E then m * 3.0 else m)"

subsection \<open>Wind gusts and the physics of the player (lines 430 to 584)\<close>

text \<open>Lines 431 to 468: an active gust counts down, an inactive one may start.\<close>

definition gustLogic :: "Env \<Rightarrow> Rnd \<Rightarrow> real \<Rightarrow> World \<Rightarrow> World" where
  "gustLogic E R d w =
     (let g = windGust w in
      if gactive g then
        (let g1 = g\<lparr>gtimeLeft := gtimeLeft g - 1\<rparr> in
         if gtimeLeft g1 \<le> 0 then w\<lparr>windGust := g1\<lparr>gactive := False\<rparr>\<rparr>
         else w\<lparr>windGust := g1\<rparr>)
      else if score w > 300 \<and> gustRoll R < gustProbability E d then
        (let direction = (if gustDirection R > 0.5 then 1 else -1);
             difficultyMult = 1 + d
         in w\<lparr>windGust :=
              \<lparr>gactive = True,
               gvx = direction * (5 + gustStrength R * 8) * difficultyMult,
               gvy = - 0.5 - gustLift R * 1.5 * difficultyMult,
               gtimeLeft = 60 + gustTime R * 60\<rparr>\<rparr>)
      else w)"

text \<open>Lines 472 to 481: steering towards \<^verbatim>\<open>targetX\<close>, clamped to 20 per tick.\<close>

definition moveSpeed :: "Player \<Rightarrow> real" where
  "moveSpeed p =
     (let dx = targetX p - px p;
          responsiveness = (if isUmbrellaOpen p then 0.05 else 0.12);
          m0 = dx * responsiveness;
          m1 = (if m0 > 20 then 20 else m0);
          m2 = (if m1 < - 20 then - 20 else m1)
      in m2)"

text \<open>Lines 483 to 490: the gust force path.\<close>

definition applyGust :: "bool \<Rightarrow> WindGust \<Rightarrow> Player \<Rightarrow> Player" where
  "applyGust hasWindBreaker g p =
     (if gactive g \<and> \<not> hasWindBreaker
      then p\<lparr>vy := vy p + gvy g, vx := moveSpeed p + gvx g\<rparr>
      else p\<lparr>vx := moveSpeed p + 0\<rparr>)"

text \<open>Lines 493 to 509: gravity, terminal velocity and lift.\<close>

definition currentTerminal :: "real \<Rightarrow> Player \<Rightarrow> real" where
  "currentTerminal gm p =
     (if isUmbrellaOpen p then BASE_GLIDE_TERMINAL_VELOCITY else BASE_TERMINAL_VELOCITY) * gm"

definition currentGravity :: "real \<Rightarrow> Player \<Rightarrow> real" where
  "currentGravity gm p =
     (let g0 = (if isUmbrellaOpen p then BASE_GLIDE_GRAVITY else BASE_GRAVITY) * gm in
      if isUmbrellaOpen p then g0 - (\<bar>vx p\<bar> * 0.1) * 0.05 else g0)"

definition applyLift :: "Player \<Rightarrow> Player" where
  "applyLift p =
     (if isUmbrellaOpen p \<and> \<bar>vx p\<bar> > 5 then p\<lparr>vy := vy p - 0.05\<rparr> else p)"

text \<open>Lines 511 to 545: the wind-zone force path, one zone after the other.\<close>

definition insideZone :: "Player \<Rightarrow> WindZone \<Rightarrow> bool" where
  "insideZone p z =
     (px p > zx z \<and> px p < zx z + zwidth z \<and> py p > zy z \<and> py p < zy z + zheight z)"

fun zoneForces :: "WindZone list \<Rightarrow> Player \<Rightarrow> Player" where
  "zoneForces [] p = p"
| "zoneForces (z # zs) p =
     zoneForces zs
       (if insideZone p z then
          (let surfaceFactor = (if isUmbrellaOpen p then 1.0 else 0.3) in
           p\<lparr>vx := vx p + zvx z * surfaceFactor * 0.15,
             vy := vy p + zvy z * surfaceFactor * 0.15\<rparr>)
        else p)"

definition applyWindZones :: "bool \<Rightarrow> WindZone list \<Rightarrow> Player \<Rightarrow> Player" where
  "applyWindZones hasWindBreaker zs p = (if \<not> hasWindBreaker then zoneForces zs p else p)"

text \<open>Lines 550 to 572: integration and the screen bounds.\<close>

definition PLAYER_MARGIN :: real where "PLAYER_MARGIN = 50"

definition integrate :: "real \<Rightarrow> Player \<Rightarrow> Player" where
  "integrate gravity p = p\<lparr>px := px p + vx p, vy := vy p + gravity\<rparr>"

definition clampBounds :: "Env \<Rightarrow> Player \<Rightarrow> Player" where
  "clampBounds E p =
     (let p1 = (if px p < PLAYER_MARGIN then p\<lparr>px := PLAYER_MARGIN, vx := 0\<rparr> else p);
          p2 = (if px p1 > canvasWidth E - PLAYER_MARGIN
                then p1\<lparr>px := canvasWidth E - PLAYER_MARGIN, vx := 0\<rparr> else p1);
          p3 = (if py p2 < 100 then p2\<lparr>py := 100, vy := max (vy p2) 0\<rparr> else p2);
          p4 = (if py p3 > canvasHeight E - 100
                then p3\<lparr>py := canvasHeight E - 100, vy := min (vy p3) 0\<rparr> else p3)
      in p4)"

text \<open>Lines 574 to 584: super glide and the velocity clamps.\<close>

definition clampVelocity :: "bool \<Rightarrow> bool \<Rightarrow> real \<Rightarrow> Player \<Rightarrow> Player" where
  "clampVelocity hasSuperGlide gustActive terminal p =
     (let p1 = (if hasSuperGlide then p\<lparr>vy := vy p - 0.4\<rparr> else p);
          p2 = (if vy p1 > terminal * 2 then p1\<lparr>vy := terminal * 2\<rparr>
                else if vy p1 > terminal \<and> \<not> gustActive then p1\<lparr>vy := terminal\<rparr>
                else p1);
          p3 = (if vy p2 < - 8 \<and> \<not> hasSuperGlide then p2\<lparr>vy := - 8\<rparr> else p2)
      in p3)"

text \<open>
  The player after the forces and the integration step (lines 483 to 551). The gravity
  of the tick is computed from the horizontal velocity before the wind zones act (line
  503 precedes line 526).
\<close>

definition integrated :: "Env \<Rightarrow> real \<Rightarrow> World \<Rightarrow> Player" where
  "integrated E d w =
     (let hasWindBreaker = hasPowerUp WIND_BREAKER (activePowerUps w);
          gm = gravityMultiplier E d;
          p1 = applyGust hasWindBreaker (windGust w) (player w);
          gravity = currentGravity gm p1;
          p2 = applyLift p1;
          p3 = applyWindZones hasWindBreaker (windZones w) p2
      in integrate gravity p3)"

text \<open>The player after the physics of one tick (lines 483 to 584).\<close>

definition physics :: "Env \<Rightarrow> real \<Rightarrow> World \<Rightarrow> Player" where
  "physics E d w =
     (let hasSuperGlide = hasPowerUp SUPER_GLIDE (activePowerUps w);
          terminal = currentTerminal (gravityMultiplier E d) (player w);
          p5 = clampBounds E (integrated E d w)
      in clampVelocity hasSuperGlide (gactive (windGust w)) terminal p5)"

subsection \<open>Score (lines 605 to 612)\<close>

definition distanceTraveled :: "Env \<Rightarrow> real \<Rightarrow> World \<Rightarrow> real" where
  "distanceTraveled E d w =
     vy (player w) * worldSpeedMultiplier E d (hasPowerUp SLOW_MOTION (activePowerUps w))"

definition addScore :: "Env \<Rightarrow> real \<Rightarrow> real \<Rightarrow> World \<Rightarrow> World" where
  "addScore E d travel w = w\<lparr>score := score w + \<lfloor>travel * scoreMultiplier E d\<rfloor>\<rparr>"

subsection \<open>Challenge objectives: the per-tick tracker (lines 614 to 661)\<close>

definition trackObjective :: "int \<Rightarrow> real \<Rightarrow> ChallengObjective \<Rightarrow> ChallengObjective" where
  "trackObjective currentDepth elapsed obj =
     (if completed obj then obj
      else (case jtype obj of
              SURVIVE_TIME \<Rightarrow>
                obj\<lparr>current := of_int \<lfloor>elapsed\<rfloor>, completed := (elapsed \<ge> target obj)\<rparr>
            | REACH_DEPTH \<Rightarrow>
                obj\<lparr>current := of_int currentDepth,
                    completed := (of_int currentDepth \<ge> target obj)\<rparr>
            | COLLECT_COINS \<Rightarrow> obj
            | NO_DAMAGE \<Rightarrow> obj
            | AVOID_OBSTACLES \<Rightarrow> obj))"

text \<open>
  The tracker runs when the mode is CHALLENGE, a progress object is present and a level
  is selected. It hands the updated progress to the application and, when every
  objective is completed, calls the game-over sink; the tick then goes on (there is no
  \<^verbatim>\<open>return\<close> after line 658). The test of \<^verbatim>\<open>canvasRef.current\<close> at line
  656 holds in every tick: the loop calls \<^verbatim>\<open>update\<close> with that canvas (lines 2006
  to 2054).
\<close>

definition trackObjectives :: "Env \<Rightarrow> World \<Rightarrow> World" where
  "trackObjectives E w =
     (case levelProgress w of
        None \<Rightarrow> w
      | Some lp \<Rightarrow>
          (case selectedChallengeLevel E of
             None \<Rightarrow> w
           | Some lvl \<Rightarrow>
               if gameMode E = CHALLENGE then
                 (let currentDepth = score w div 10;
                      elapsed = (now E - startTime lp) / 1000;
                      updatedObjectives = map (trackObjective currentDepth elapsed) (objectives lp);
                      w1 = w\<lparr>levelProgress :=
                             Some (lp\<lparr>objectives := updatedObjectives, timeElapsed := elapsed\<rparr>)\<rparr>
                  in if list_all completed updatedObjectives
                     then w1\<lparr>gameOvers := gameOvers w1 @ [(currentDepth, LevelComplete lvl)]\<rparr>
                     else w1)
               else w))"

text \<open>
  The three event handlers below map over the objective objects and call
  \<^verbatim>\<open>onLevelProgressUpdate({...levelProgress, objectives})\<close>, where
  \<^verbatim>\<open>levelProgress\<close> is the prop the tick started with (\<open>lp0\<close>): the objects
  carry the mutations made so far in the tick, the other fields are those of the prop.
\<close>

definition updateProgress ::
  "Env \<Rightarrow> LevelProgress option \<Rightarrow> (ChallengObjective \<Rightarrow> ChallengObjective) \<Rightarrow> World \<Rightarrow> World" where
  "updateProgress E lp0 f w =
     (case lp0 of
        None \<Rightarrow> w
      | Some lp \<Rightarrow>
          (case levelProgress w of
             None \<Rightarrow> w
           | Some cur \<Rightarrow>
               if gameMode E = CHALLENGE
               then w\<lparr>levelProgress := Some (lp\<lparr>objectives := map f (objectives cur)\<rparr>)\<rparr>
               else w))"

text \<open>Lines 822 to 828, 889 to 895 and 1024 to 1030.\<close>

definition avoidedObstacle :: "ChallengObjective \<Rightarrow> ChallengObjective" where
  "avoidedObstacle obj =
     (if jtype obj = AVOID_OBSTACLES \<and> \<not> completed obj
      then obj\<lparr>current := current obj + 1, completed := (current obj + 1 \<ge> target obj)\<rparr>
      else obj)"

definition tookDamage :: "ChallengObjective \<Rightarrow> ChallengObjective" where
  "tookDamage obj =
     (if jtype obj = NO_DAMAGE then obj\<lparr>current := 0, completed := False\<rparr> else obj)"

definition collectedCoin :: "ChallengObjective \<Rightarrow> ChallengObjective" where
  "collectedCoin obj =
     (if jtype obj = COLLECT_COINS \<and> \<not> completed obj
      then obj\<lparr>current := current obj + 1, completed := (current obj + 1 \<ge> target obj)\<rparr>
      else obj)"

subsection \<open>Spawners (lines 139 to 249, called at lines 767 to 785)\<close>

definition newObstacle :: "Env \<Rightarrow> Rnd \<Rightarrow> real \<Rightarrow> World \<Rightarrow> Obstacle" where
  "newObstacle E R d w =
     (let typeRoll = obsTypeRoll R;
          x0 = obsX R * (canvasWidth E - 100);
          y0 = canvasHeight E + 100;
          speedMult = 1 + d;
          obs =
            (if typeRoll < 0.4 then
               \<lparr>ox = x0, oy = y0, owidth = 40, oheight = 20, otype = BIRD,
                speedX = (obsSpeed R - 0.5) * 4 * speedMult\<rparr>
             else if typeRoll < 0.6 then
               \<lparr>ox = x0, oy = y0, owidth = 30, oheight = 40, otype = BALLOON, speedX = 0\<rparr>
             else if typeRoll < 0.8 \<and> score w > 500 then
               (let width = 150 + obsWidth R * 100 in
                \<lparr>ox = (if obsSide R > 0.5 then 0 else canvasWidth E - width),
                 oy = canvasHeight E + 400, owidth = width, oheight = 400,
                 otype = BUILDING, speedX = 0\<rparr>)
             else
               \<lparr>ox = x0, oy = y0, owidth = 100, oheight = 60, otype = CLOUD, speedX = 0\<rparr>)
      in obs)"

definition spawnObstacle :: "Env \<Rightarrow> Rnd \<Rightarrow> real \<Rightarrow> World \<Rightarrow> World" where
  "spawnObstacle E R d w = w\<lparr>obstacles := obstacles w @ [newObstacle E R d w]\<rparr>"

definition newWindZone :: "Env \<Rightarrow> Rnd \<Rightarrow> real \<Rightarrow> WindZone" where
  "newWindZone E R d =
     (let width = 200 + zoneWidth R * 300;
          height = 300 + zoneHeight R * 400;
          x = zoneX R * (canvasWidth E - width);
          y = canvasHeight E + 100;
          typeRoll = zoneTypeRoll R;
          forceMult = 1 + d * 1.5;
          fx = (if typeRoll < 0.4
                then (if zoneDirection R > 0.5 then 1 else - 1) * (2 + zoneMagnitude R * 3) * forceMult
                else 0);
          fy = (if typeRoll < 0.4 then 0
                else if typeRoll < 0.7 then - (0.5 + zoneMagnitude R * 0.8) * forceMult
                else (0.5 + zoneMagnitude R * 0.5) * forceMult)
      in \<lparr>zx = x, zy = y, zwidth = width, zheight = height, zvx = fx, zvy = fy\<rparr>)"

definition spawnWindZone :: "Env \<Rightarrow> Rnd \<Rightarrow> real \<Rightarrow> World \<Rightarrow> World" where
  "spawnWindZone E R d w = w\<lparr>windZones := windZones w @ [newWindZone E R d]\<rparr>"

text \<open>
  \<^verbatim>\<open>types[Math.floor(Math.random() * types.length)]\<close>: the draw lies in \<open>[0, 1)\<close>,
  so the index is one of 0, 1, 2, 3.
\<close>

definition powerUpTypeOf :: "real \<Rightarrow> PowerUpType" where
  "powerUpTypeOf r =
     (let i = \<lfloor>r * 4\<rfloor> in
      if i = 0 then SLOW_MOTION else if i = 1 then SHIELD
      else if i = 2 then WIND_BREAKER else SUPER_GLIDE)"

definition spawnPowerUp :: "Env \<Rightarrow> Rnd \<Rightarrow> World \<Rightarrow> World" where
  "spawnPowerUp E R w =
     w\<lparr>powerUps := powerUps w @
        [\<lparr>pux = puX R * (canvasWidth E - 40), puy = canvasHeight E + 100,
          puwidth = 40, puheight = 40, putype = powerUpTypeOf (puTypeRoll R),
          pucollected = False\<rparr>]\<rparr>"

definition spawnCoin :: "Env \<Rightarrow> Rnd \<Rightarrow> World \<Rightarrow> World" where
  "spawnCoin E R w =
     w\<lparr>coins := coins w @
        [\<lparr>cx = coinX R * (canvasWidth E - 30), cy = canvasHeight E + 100,
          cwidth = 30, cheight = 30, ccollected = False, spin = 0\<rparr>]\<rparr>"

text \<open>Lines 767 to 785: the four cadence checks, in the order of the source.\<close>

definition obstacleCadence :: "Env \<Rightarrow> Rnd \<Rightarrow> real \<Rightarrow> World \<Rightarrow> World" where
  "obstacleCadence E R d w =
     (if int (frameCount w) mod obstacleSpawnRate E d = 0 then spawnObstacle E R d w else w)"

definition windZoneCadence :: "Env \<Rightarrow> Rnd \<Rightarrow> real \<Rightarrow> World \<Rightarrow> World" where
  "windZoneCadence E R d w =
     (if int (frameCount w) mod windZoneSpawnRate E d = 0 \<and> score w > 200
      then spawnWindZone E R d w else w)"

definition powerUpCadence :: "Env \<Rightarrow> Rnd \<Rightarrow> World \<Rightarrow> World" where
  "powerUpCadence E R w =
     (if frameCount w mod 300 = 0 \<and> score w > 100 then spawnPowerUp E R w else w)"

definition coinCadence :: "Env \<Rightarrow> Rnd \<Rightarrow> World \<Rightarrow> World" where
  "coinCadence E R w =
     (if frameCount w mod 120 = 0 \<and> score w > 50 then spawnCoin E R w else w)"

definition spawnEntities :: "Env \<Rightarrow> Rnd \<Rightarrow> real \<Rightarrow> World \<Rightarrow> World" where
  "spawnEntities E R d w =
     coinCadence E R (powerUpCadence E R (windZoneCadence E R d (obstacleCadence E R d w)))"

subsection \<open>Timers and scrolling (lines 787 to 805)\<close>

text \<open>
  The loops of the source run from the last index down and splice the current
  element out; an element's turn comes after the turns of all elements behind it.
  The recursive functions below take the tail first for that reason.
\<close>

fun updateTimers :: "ActivePowerUp list \<Rightarrow> ActivePowerUp list" where
  "updateTimers [] = []"
| "updateTimers (p # ps) =
     (let rest = updateTimers ps;
          p1 = p\<lparr>timeLeft := timeLeft p - 1\<rparr>
      in if timeLeft p1 \<le> 0 then rest else p1 # rest)"

fun moveWindZones :: "real \<Rightarrow> WindZone list \<Rightarrow> WindZone list" where
  "moveWindZones travel [] = []"
| "moveWindZones travel (z # zs) =
     (let rest = moveWindZones travel zs;
          z1 = z\<lparr>zy := zy z - travel * 1.5\<rparr>
      in if zy z1 < - zheight z1 - 100 then rest else z1 # rest)"

subsection \<open>Collision tests (lines 839 to 851, 920 to 933, 1000 to 1013)\<close>

record Rect =
  rx :: real
  ry :: real
  rwidth :: real
  rheight :: real

text \<open>The hitbox of the obstacle and power-up checks, and the wider one of the coin check.\<close>

definition playerHitbox :: "Player \<Rightarrow> Rect" where
  "playerHitbox p = \<lparr>rx = px p - 10, ry = py p - 40, rwidth = 20, rheight = 80\<rparr>"

definition coinHitbox :: "Player \<Rightarrow> Rect" where
  "coinHitbox p = \<lparr>rx = px p - 15, ry = py p - 45, rwidth = 30, rheight = 90\<rparr>"

definition hitsObstacle :: "Player \<Rightarrow> Obstacle \<Rightarrow> bool" where
  "hitsObstacle p obs =
     (let h = playerHitbox p in
      rx h < ox obs + owidth obs \<and>
      rx h + rwidth h > ox obs \<and>
      ry h < oy obs + oheight obs \<and>
      rheight h + ry h > oy obs)"

definition hitsPowerUp :: "Player \<Rightarrow> PowerUp \<Rightarrow> bool" where
  "hitsPowerUp p u =
     (let h = playerHitbox p in
      \<not> pucollected u \<and>
      rx h < pux u + puwidth u \<and>
      rx h + rwidth h > pux u \<and>
      ry h < puy u + puheight u \<and>
      rheight h + ry h > puy u)"

definition hitsCoin :: "Player \<Rightarrow> Coin \<Rightarrow> bool" where
  "hitsCoin p c =
     (let h = coinHitbox p in
      \<not> ccollected c \<and>
      rx h < cx c + cwidth c \<and>
      rx h + rwidth h > cx c \<and>
      ry h < cy c + cheight c \<and>
      rheight h + ry h > cy c)"

subsection \<open>The obstacle loop (lines 807 to 907)\<close>

definition moveObstacle :: "Env \<Rightarrow> real \<Rightarrow> Obstacle \<Rightarrow> Obstacle" where
  "moveObstacle E travel obs =
     (let o1 = obs\<lparr>oy := oy obs - travel * 1.5, ox := ox obs + speedX obs\<rparr> in
      if otype o1 = BIRD \<and> (ox o1 \<le> 0 \<or> ox o1 + owidth o1 \<ge> canvasWidth E)
      then o1\<lparr>speedX := speedX o1 * (- 1)\<rparr> else o1)"

text \<open>\<^verbatim>\<open>findIndex\<close> of the first SHIELD entry, then \<^verbatim>\<open>splice\<close>.\<close>

fun consumeShield :: "ActivePowerUp list \<Rightarrow> ActivePowerUp list" where
  "consumeShield [] = []"
| "consumeShield (p # ps) = (if atype p = SHIELD then ps else p # consumeShield ps)"

text \<open>
  One turn of the loop for obstacle \<open>obs\<close>, in the world \<open>w\<close> left by the turns
  before it. The result is the obstacle as it stays in the list (\<open>None\<close> when it is
  spliced out) and the new world. A fatal hit leaves the moved obstacle in the list,
  calls the game-over sink and sets \<open>returned\<close>.
\<close>

definition obstacleTurn ::
  "Env \<Rightarrow> LevelProgress option \<Rightarrow> real \<Rightarrow> Obstacle \<Rightarrow> World \<Rightarrow> Obstacle option \<times> World" where
  "obstacleTurn E lp0 travel obs w =
     (let o1 = moveObstacle E travel obs in
      if oy o1 < - 500 then (None, updateProgress E lp0 avoidedObstacle w)
      else if hitsObstacle (player w) o1 then
        (if hasPowerUp SHIELD (activePowerUps w) then
           (None,
            w\<lparr>activePowerUps := consumeShield (activePowerUps w),
              player := (player w)\<lparr>umbrellaIsBroken := True, brokenTimer := 30\<rparr>\<rparr>)
         else
           (let w1 = updateProgress E lp0 tookDamage w in
            (Some o1,
             w1\<lparr>gameOvers := gameOvers w1 @ [(score w1 div 10, HitA (otype o1))],
                returned := True\<rparr>)))
      else (Some o1, w))"

fun obstacleLoop ::
  "Env \<Rightarrow> LevelProgress option \<Rightarrow> real \<Rightarrow> Obstacle list \<Rightarrow> World \<Rightarrow> Obstacle list \<times> World" where
  "obstacleLoop E lp0 travel [] w = ([], w)"
| "obstacleLoop E lp0 travel (obs # rest) w =
     (case obstacleLoop E lp0 travel rest w of
        (rest1, w1) \<Rightarrow>
          if returned w1 then (obs # rest1, w1)
          else (case obstacleTurn E lp0 travel obs w1 of
                  (None, w2) \<Rightarrow> (rest1, w2)
                | (Some o1, w2) \<Rightarrow> (o1 # rest1, w2)))"

definition updateObstacles :: "Env \<Rightarrow> LevelProgress option \<Rightarrow> real \<Rightarrow> World \<Rightarrow> World" where
  "updateObstacles E lp0 travel w =
     (case obstacleLoop E lp0 travel (obstacles w) w of
        (obs1, w1) \<Rightarrow> w1\<lparr>obstacles := obs1\<rparr>)"

subsection \<open>The power-up loop (lines 909 to 986)\<close>

definition powerUpDuration :: "PowerUpType \<Rightarrow> int" where
  "powerUpDuration t =
     (case t of SLOW_MOTION \<Rightarrow> 180 | SHIELD \<Rightarrow> - 1 | WIND_BREAKER \<Rightarrow> 300 | SUPER_GLIDE \<Rightarrow> 300)"

definition powerUpTurn :: "real \<Rightarrow> PowerUp \<Rightarrow> World \<Rightarrow> PowerUp option \<times> World" where
  "powerUpTurn travel u w =
     (let u1 = u\<lparr>puy := puy u - travel * 1.5\<rparr> in
      if puy u1 < - 100 then (None, w)
      else if hitsPowerUp (player w) u1 then
        (None,
         w\<lparr>player := (player w)\<lparr>isDancing := True, danceTimer := 60\<rparr>,
           activePowerUps := activePowerUps w @
             [\<lparr>atype = putype u1, timeLeft = powerUpDuration (putype u1),
               duration = powerUpDuration (putype u1)\<rparr>]\<rparr>)
      else (Some u1, w))"

fun powerUpLoop :: "real \<Rightarrow> PowerUp list \<Rightarrow> World \<Rightarrow> PowerUp list \<times> World" where
  "powerUpLoop travel [] w = ([], w)"
| "powerUpLoop travel (u # rest) w =
     (case powerUpLoop travel rest w of
        (rest1, w1) \<Rightarrow>
          (case powerUpTurn travel u w1 of
             (None, w2) \<Rightarrow> (rest1, w2)
           | (Some u1, w2) \<Rightarrow> (u1 # rest1, w2)))"

definition updatePowerUps :: "real \<Rightarrow> World \<Rightarrow> World" where
  "updatePowerUps travel w =
     (case powerUpLoop travel (powerUps w) w of (us1, w1) \<Rightarrow> w1\<lparr>powerUps := us1\<rparr>)"

subsection \<open>The coin loop (lines 988 to 1054)\<close>

definition coinTurn ::
  "Env \<Rightarrow> LevelProgress option \<Rightarrow> real \<Rightarrow> Coin \<Rightarrow> World \<Rightarrow> Coin option \<times> World" where
  "coinTurn E lp0 travel c w =
     (let c1 = c\<lparr>cy := cy c - travel * 1.5, spin := spin c + 0.1\<rparr> in
      if cy c1 < - 100 then (None, w)
      else if hitsCoin (player w) c1 then
        (None, updateProgress E lp0 collectedCoin (w\<lparr>coinCollects := coinCollects w + 1\<rparr>))
      else (Some c1, w))"

fun coinLoop ::
  "Env \<Rightarrow> LevelProgress option \<Rightarrow> real \<Rightarrow> Coin list \<Rightarrow> World \<Rightarrow> Coin list \<times> World" where
  "coinLoop E lp0 travel [] w = ([], w)"
| "coinLoop E lp0 travel (c # rest) w =
     (case coinLoop E lp0 travel rest w of
        (rest1, w1) \<Rightarrow>
          (case coinTurn E lp0 travel c w1 of
             (None, w2) \<Rightarrow> (rest1, w2)
           | (Some c1, w2) \<Rightarrow> (c1 # rest1, w2)))"

definition updateCoins :: "Env \<Rightarrow> LevelProgress option \<Rightarrow> real \<Rightarrow> World \<Rightarrow> World" where
  "updateCoins E lp0 travel w =
     (case coinLoop E lp0 travel (coins w) w of (cs1, w1) \<Rightarrow> w1\<lparr>coins := cs1\<rparr>)"

subsection \<open>Animation timers (lines 1087 to 1101) and the tick\<close>

definition updateAnimations :: "Player \<Rightarrow> Player" where
  "updateAnimations p =
     (let p1 = (if danceTimer p > 0
                then (let q = p\<lparr>danceTimer := danceTimer p - 1\<rparr> in
                      if danceTimer q = 0 then q\<lparr>isDancing := False\<rparr> else q)
                else p);
          p2 = (if brokenTimer p1 > 0
                then (let q = p1\<lparr>brokenTimer := brokenTimer p1 - 1\<rparr> in
                      if brokenTimer q = 0 then q\<lparr>umbrellaIsBroken := False\<rparr> else q)
                else p1)
      in p2)"

text \<open>
  The part of the tick that follows the obstacle loop; it is skipped when the loop
  has returned.
\<close>

definition afterObstacles :: "Env \<Rightarrow> LevelProgress option \<Rightarrow> real \<Rightarrow> World \<Rightarrow> World" where
  "afterObstacles E lp0 travel w =
     (let w1 = updatePowerUps travel w;
          w2 = updateCoins E lp0 travel w1;
          w3 = w2\<lparr>player := updateAnimations (player w2)\<rparr>
      in w3\<lparr>frameCount := frameCount w3 + 1\<rparr>)"

text \<open>
  The tick. \<open>gameOvers\<close> and \<open>coinCollects\<close> log the calls of the two sinks; a
  tick appends to them. \<open>returned\<close> is local to one tick.
\<close>

definition update :: "Env \<Rightarrow> Rnd \<Rightarrow> World \<Rightarrow> World" where
  "update E R w0 =
     (let w = w0\<lparr>returned := False\<rparr> in
      if gameState E \<noteq> PLAYING then w
      else if isPaused E then w
      else
        (let lp0 = levelProgress w;
             d = difficulty (real_of_int (score w));
             wa = gustLogic E R d w;
             wb = wa\<lparr>player := physics E d wa\<rparr>;
             travel = distanceTraveled E d wb;
             wc = addScore E d travel wb;
             wd = trackObjectives E wc;
             we = spawnEntities E R d wd;
             wf = we\<lparr>activePowerUps := updateTimers (activePowerUps we)\<rparr>;
             wg = wf\<lparr>windZones := moveWindZones travel (windZones wf)\<rparr>;
             wh = updateObstacles E lp0 travel wg
         in if returned wh then wh else afterObstacles E lp0 travel wh))"

text \<open>
  Between two ticks the input handlers (lines 2088 to 2105) set the umbrella flag and
  the steering target. A run is a sequence of ticks, each with its props, its random
  draws and the input that arrived before it.
\<close>

record Input =
  env :: Env
  rnd :: Rnd
  umbrella :: bool
  pointerX :: real

definition applyInput :: "Input \<Rightarrow> World \<Rightarrow> World" where
  "applyInput i w = w\<lparr>player := (player w)\<lparr>isUmbrellaOpen := umbrella i, targetX := pointerX i\<rparr>\<rparr>"

fun run :: "Input list \<Rightarrow> World \<Rightarrow> World" where
  "run [] w = w"
| "run (i # is) w = run is (update (env i) (rnd i) (applyInput i w))"

subsection \<open>Notions of the specification and of the statements below\<close>

text \<open>The clamp of the specification, \<open>clamp(x, lo, hi)\<close>, written from its words.\<close>

definition clamp :: "real \<Rightarrow> real \<Rightarrow> real \<Rightarrow> real" where
  "clamp x lo hi = (if x < lo then lo else if hi < x then hi else x)"

text \<open>Position and velocity of the player.\<close>

definition kinematics :: "Player \<Rightarrow> real \<times> real \<times> real \<times> real" where
  "kinematics p = (px p, py p, vx p, vy p)"

text \<open>
  The difficulty of a tick (line 306), the world in which its physics runs (after the
  gust logic), the player before the screen bounds are applied and after the physics.
\<close>

definition tickDifficulty :: "World \<Rightarrow> real" where
  "tickDifficulty w = difficulty (real_of_int (score w))"

definition tickWorld :: "Env \<Rightarrow> Rnd \<Rightarrow> World \<Rightarrow> World" where
  "tickWorld E R w = gustLogic E R (tickDifficulty w) (w\<lparr>returned := False\<rparr>)"

definition tickMoved :: "Env \<Rightarrow> Rnd \<Rightarrow> World \<Rightarrow> Player" where
  "tickMoved E R w = integrated E (tickDifficulty w) (tickWorld E R w)"

definition tickPlayer :: "Env \<Rightarrow> Rnd \<Rightarrow> World \<Rightarrow> Player" where
  "tickPlayer E R w = physics E (tickDifficulty w) (tickWorld E R w)"






definition positiveSize :: "Obstacle \<Rightarrow> bool" where
  "positiveSize obs = (0 < owidth obs \<and> 0 < oheight obs)"

text \<open>
  The level-complete calls among the calls of the game-over sink, and a NO_DAMAGE
  objective that is not completed.
\<close>

definition isLevelComplete :: "Cause \<Rightarrow> bool" where
  "isLevelComplete c = (case c of LevelComplete n \<Rightarrow> True | HitA t \<Rightarrow> False)"

definition levelCompletes :: "World \<Rightarrow> (int \<times> Cause) list" where
  "levelCompletes w = filter (\<lambda>e. isLevelComplete (snd e)) (gameOvers w)"

definition noDamagePending :: "ChallengObjective \<Rightarrow> bool" where
  "noDamagePending obj = (jtype obj = NO_DAMAGE \<and> \<not> completed obj)"

definition pendingNoDamage :: "World \<Rightarrow> bool" where
  "pendingNoDamage w =
     (case levelProgress w of None \<Rightarrow> False
      | Some lp \<Rightarrow> list_ex noDamagePending (objectives lp))"

text \<open>The objectives as the tracker leaves them, and its verdict (lines 620 to 653).\<close>

definition trackedObjectives :: "Env \<Rightarrow> World \<Rightarrow> LevelProgress \<Rightarrow> ChallengObjective list" where
  "trackedObjectives E w lp =
     map (trackObjective (score w div 10) ((now E - startTime lp) / 1000)) (objectives lp)"

definition allCompleted :: "Env \<Rightarrow> World \<Rightarrow> LevelProgress \<Rightarrow> bool" where
  "allCompleted E w lp = list_all completed (trackedObjectives E w lp)"

subsection \<open>Concrete worlds\<close>

text \<open>
  A playing tick of the endless mode on an 800 by 600 canvas; random draws that start
  no gust; a player at rest; a world without entities, at frame 1 (no spawn is due).
\<close>

definition demoEnv :: Env where
  "demoEnv = \<lparr>gameState = PLAYING, isPaused = False, difficultyMode = MEDIUM,
     gameMode = ENDLESS, selectedChallengeLevel = None,
     canvasWidth = 800, canvasHeight = 600, now = 0\<rparr>"

definition quietRnd :: Rnd where
  "quietRnd = \<lparr>gustRoll = 0.5, gustDirection = 0.5, gustStrength = 0.5, gustLift = 0.5,
     gustTime = 0.5, obsTypeRoll = 0.5, obsX = 0.5, obsSpeed = 0.5, obsWidth = 0.5,
     obsSide = 0.5, zoneWidth = 0.5, zoneHeight = 0.5, zoneX = 0.5, zoneTypeRoll = 0.5,
     zoneDirection = 0.5, zoneMagnitude = 0.5, puTypeRoll = 0.5, puX = 0.5, coinX = 0.5\<rparr>"

definition restingPlayer :: Player where
  "restingPlayer = \<lparr>px = 400, py = 200, vx = 0, vy = 0, isUmbrellaOpen = False,
     targetX = 400, isDancing = False, danceTimer = 0, umbrellaIsBroken = False,
     brokenTimer = 0\<rparr>"

definition emptyWorld :: World where
  "emptyWorld = \<lparr>score = 0, player = restingPlayer,
     windGust = \<lparr>gactive = False, gvx = 0, gvy = 0, gtimeLeft = 0\<rparr>,
     obstacles = [], windZones = [], powerUps = [], activePowerUps = [], coins = [],
     frameCount = 1, levelProgress = None, gameOvers = [], coinCollects = 0,
     returned = False\<rparr>"

text \<open>
  A SHIELD power-up on the player and a bird 90 units to the left that flies 30 units
  per tick to the right: it reaches the hitbox on the second tick.
\<close>

definition shieldPickupWorld :: World where
  "shieldPickupWorld = emptyWorld
     \<lparr>powerUps := [\<lparr>pux = 390, puy = 190, puwidth = 40, puheight = 40, putype = SHIELD,
                     pucollected = False\<rparr>],
      obstacles := [\<lparr>ox = 300, oy = 200, owidth = 40, oheight = 20, otype = BIRD,
                     speedX = 30\<rparr>]\<rparr>"

definition steady :: Input where
  "steady = \<lparr>env = demoEnv, rnd = quietRnd, umbrella = False, pointerX = 400\<rparr>"

text \<open>Rising with the umbrella open: vertical velocity \<open>-5\<close> at raw score 100.\<close>

definition risingWorld :: World where
  "risingWorld = emptyWorld\<lparr>score := 100,
     player := restingPlayer\<lparr>vy := - 5, isUmbrellaOpen := True\<rparr>\<rparr>"

text \<open>A canvas 80 units wide, and a player at \<open>x = 40\<close>.\<close>

definition narrowEnv :: Env where
  "narrowEnv = demoEnv\<lparr>canvasWidth := 80\<rparr>"

definition narrowWorld :: World where
  "narrowWorld = emptyWorld\<lparr>player := restingPlayer\<lparr>px := 40, targetX := 40\<rparr>\<rparr>"

text \<open>A player at \<open>x = 55\<close> steering far to the left.\<close>

definition edgeWorld :: World where
  "edgeWorld = emptyWorld\<lparr>player := restingPlayer\<lparr>px := 55, targetX := - 200\<rparr>\<rparr>"




text \<open>
  A dive at terminal velocity at raw score 5200 (difficulty 1, gravity multiplier 1.8,
  terminal velocity 27) with an active WIND_BREAKER, an active gust and a wind zone that
  contains the player; the same dive with no gust and no zone.
\<close>

definition diveZone :: WindZone where
  "diveZone = \<lparr>zx = 300, zy = 100, zwidth = 200, zheight = 300, zvx = 5, zvy = 1\<rparr>"

definition gustyDiveWorld :: World where
  "gustyDiveWorld = emptyWorld
     \<lparr>score := 5200,
      player := restingPlayer\<lparr>vy := 27\<rparr>,
      activePowerUps := [\<lparr>atype = WIND_BREAKER, timeLeft = 300, duration = 300\<rparr>],
      windGust := \<lparr>gactive = True, gvx = 10, gvy = - 2, gtimeLeft = 50\<rparr>,
      windZones := [diveZone]\<rparr>"

definition stillDiveWorld :: World where
  "stillDiveWorld = gustyDiveWorld
     \<lparr>windGust := \<lparr>gactive = False, gvx = 0, gvy = 0, gtimeLeft = 0\<rparr>, windZones := []\<rparr>"

text \<open>
  Challenge level 1 (\<^verbatim>\<open>challengeLevels.ts\<close>, lines 10 to 33) at raw score 5000: the
  coins are collected, the depth objective completes in the coming tick. In
  \<open>finishAndCrashWorld\<close> a cloud lies on the player as well.
\<close>

definition challengeEnv :: Env where
  "challengeEnv = demoEnv\<lparr>gameMode := CHALLENGE, selectedChallengeLevel := Some 1\<rparr>"

definition finishWorld :: World where
  "finishWorld = emptyWorld
     \<lparr>score := 5000,
      levelProgress := Some
        \<lparr>objectives =
           [\<lparr>jtype = REACH_DEPTH, target = 500, current = 499, completed = False\<rparr>,
            \<lparr>jtype = COLLECT_COINS, target = 10, current = 10, completed = True\<rparr>],
         startTime = 0, timeElapsed = 0\<rparr>\<rparr>"

definition finishAndCrashWorld :: World where
  "finishAndCrashWorld = finishWorld
     \<lparr>obstacles := [\<lparr>ox = 380, oy = 200, owidth = 100, oheight = 60, otype = CLOUD,
                     speedX = 0\<rparr>]\<rparr>"

text \<open>
  Challenge level 2 (lines 36 to 65) at raw score 10000, 90 seconds after its start:
  its objectives as \<^verbatim>\<open>initializeLevelObjectives\<close> copies them from the table.
\<close>

definition level2Objectives :: "ChallengObjective list" where
  "level2Objectives =
     [\<lparr>jtype = SURVIVE_TIME, target = 90, current = 0, completed = False\<rparr>,
      \<lparr>jtype = REACH_DEPTH, target = 1000, current = 0, completed = False\<rparr>,
      \<lparr>jtype = NO_DAMAGE, target = 1, current = 1, completed = False\<rparr>]"

definition level2Env :: Env where
  "level2Env = demoEnv\<lparr>gameMode := CHALLENGE, selectedChallengeLevel := Some 2, now := 90000\<rparr>"

definition level2World :: World where
  "level2World = emptyWorld
     \<lparr>score := 10000,
      levelProgress := Some \<lparr>objectives = level2Objectives, startTime = 0, timeElapsed = 0\<rparr>\<rparr>"

definition level2Tick :: Input where
  "level2Tick = \<lparr>env = level2Env, rnd = quietRnd, umbrella = False, pointerX = 400\<rparr>"

text \<open>
  A challenge run whose selected level is not in the table:
  \<^verbatim>\<open>initializeLevelObjectives\<close> (lines 183 to 189) then returns the empty list.
\<close>

definition emptyLevelEnv :: Env where
  "emptyLevelEnv = demoEnv\<lparr>gameMode := CHALLENGE, selectedChallengeLevel := Some 9\<rparr>"

definition emptyLevelWorld :: World where
  "emptyLevelWorld = emptyWorld
     \<lparr>levelProgress := Some \<lparr>objectives = [], startTime = 0, timeElapsed = 0\<rparr>\<rparr>"

section \<open>Results\<close>

subsection \<open>What each phase of the tick leaves unchanged\<close>

lemma updateProgress_frame:
  "score (updateProgress E lp0 f w) = score w \<and> player (updateProgress E lp0 f w) = player w
   \<and> gameOvers (updateProgress E lp0 f w) = gameOvers w
   \<and> activePowerUps (updateProgress E lp0 f w) = activePowerUps w
   \<and> returned (updateProgress E lp0 f w) = returned w"
  by (simp add: updateProgress_def split: option.splits)

lemma obstacleTurn_frame:
  "obstacleTurn E lp0 t obs w = (r, w') \<Longrightarrow>
     score w' = score w \<and> kinematics (player w') = kinematics (player w)"
  by (auto simp: obstacleTurn_def Let_def kinematics_def updateProgress_frame split: if_splits)

lemma powerUpTurn_frame:
  "powerUpTurn t u w = (r, w') \<Longrightarrow>
     score w' = score w \<and> kinematics (player w') = kinematics (player w)"
  by (auto simp: powerUpTurn_def Let_def kinematics_def split: if_splits)

lemma coinTurn_frame:
  "coinTurn E lp0 t c w = (r, w') \<Longrightarrow>
     score w' = score w \<and> kinematics (player w') = kinematics (player w)"
  by (auto simp: coinTurn_def Let_def kinematics_def updateProgress_frame split: if_splits)

lemma updateAnimations_kin: "kinematics (updateAnimations p) = kinematics p"
  by (simp add: updateAnimations_def Let_def kinematics_def)

lemma trackObjectives_frame:
  "score (trackObjectives E w) = score w \<and> player (trackObjectives E w) = player w"
  by (simp add: trackObjectives_def Let_def split: option.splits)

lemma gustLogic_frame:
  "score (gustLogic E R d w) = score w \<and> player (gustLogic E R d w) = player w
   \<and> activePowerUps (gustLogic E R d w) = activePowerUps w
   \<and> windZones (gustLogic E R d w) = windZones w"
  by (simp add: gustLogic_def Let_def)

lemma obstacleLoop_frame:
  "obstacleLoop E lp0 t os w = (r, w') \<Longrightarrow>
     score w' = score w \<and> kinematics (player w') = kinematics (player w)"
proof (induction os arbitrary: r w')
  case Nil then show ?case by simp
next
  case (Cons obs rest)
  obtain r1 w1 where a: "obstacleLoop E lp0 t rest w = (r1, w1)" by (metis surj_pair)
  from Cons.IH [OF a] have b: "score w1 = score w \<and> kinematics (player w1) = kinematics (player w)" .
  show ?case
  proof (cases "returned w1")
    case True with Cons.prems a b show ?thesis by simp
  next
    case False
    obtain x w2 where c: "obstacleTurn E lp0 t obs w1 = (x, w2)" by (metis surj_pair)
    from obstacleTurn_frame [OF c] b
    have d: "score w2 = score w \<and> kinematics (player w2) = kinematics (player w)" by simp
    from Cons.prems a False c have "w' = w2" by (simp split: option.splits)
    with d show ?thesis by simp
  qed
qed

lemma updateObstacles_frame:
  "score (updateObstacles E lp0 t w) = score w
   \<and> kinematics (player (updateObstacles E lp0 t w)) = kinematics (player w)"
proof -
  obtain r w1 where a: "obstacleLoop E lp0 t (obstacles w) w = (r, w1)" by (metis surj_pair)
  from obstacleLoop_frame [OF a] a show ?thesis by (simp add: updateObstacles_def)
qed

lemma powerUpLoop_frame:
  "powerUpLoop t us w = (r, w') \<Longrightarrow>
     score w' = score w \<and> kinematics (player w') = kinematics (player w)"
proof (induction us arbitrary: r w')
  case Nil then show ?case by simp
next
  case (Cons u rest)
  obtain r1 w1 where a: "powerUpLoop t rest w = (r1, w1)" by (metis surj_pair)
  obtain x w2 where c: "powerUpTurn t u w1 = (x, w2)" by (metis surj_pair)
  from Cons.prems a c have "w' = w2" by (simp split: option.splits)
  with Cons.IH [OF a] powerUpTurn_frame [OF c] show ?case by simp
qed

lemma coinLoop_frame:
  "coinLoop E lp0 t cs w = (r, w') \<Longrightarrow>
     score w' = score w \<and> kinematics (player w') = kinematics (player w)"
proof (induction cs arbitrary: r w')
  case Nil then show ?case by simp
next
  case (Cons c rest)
  obtain r1 w1 where a: "coinLoop E lp0 t rest w = (r1, w1)" by (metis surj_pair)
  obtain x w2 where c: "coinTurn E lp0 t c w1 = (x, w2)" by (metis surj_pair)
  from Cons.prems a c have "w' = w2" by (simp split: option.splits)
  with Cons.IH [OF a] coinTurn_frame [OF c] show ?case by simp
qed

lemma updatePowerUps_frame:
  "score (updatePowerUps t w) = score w
   \<and> kinematics (player (updatePowerUps t w)) = kinematics (player w)"
proof -
  obtain r w1 where a: "powerUpLoop t (powerUps w) w = (r, w1)" by (metis surj_pair)
  from powerUpLoop_frame [OF a] a show ?thesis by (simp add: updatePowerUps_def)
qed

lemma updateCoins_frame:
  "score (updateCoins E lp0 t w) = score w
   \<and> kinematics (player (updateCoins E lp0 t w)) = kinematics (player w)"
proof -
  obtain r w1 where a: "coinLoop E lp0 t (coins w) w = (r, w1)" by (metis surj_pair)
  from coinLoop_frame [OF a] a show ?thesis by (simp add: updateCoins_def)
qed

lemma afterObstacles_frame:
  "score (afterObstacles E lp0 t w) = score w
   \<and> kinematics (player (afterObstacles E lp0 t w)) = kinematics (player w)"
  by (simp add: afterObstacles_def Let_def updateAnimations_kin updateCoins_frame
      updatePowerUps_frame)

lemma spawnObstacle_frame:
  "score (spawnObstacle E R d w) = score w \<and> player (spawnObstacle E R d w) = player w
   \<and> frameCount (spawnObstacle E R d w) = frameCount w"
  by (simp add: spawnObstacle_def)

lemma spawnWindZone_frame:
  "score (spawnWindZone E R d w) = score w \<and> player (spawnWindZone E R d w) = player w
   \<and> frameCount (spawnWindZone E R d w) = frameCount w"
  by (simp add: spawnWindZone_def)

lemma spawnPowerUp_frame:
  "score (spawnPowerUp E R w) = score w \<and> player (spawnPowerUp E R w) = player w
   \<and> frameCount (spawnPowerUp E R w) = frameCount w"
  by (simp add: spawnPowerUp_def)

lemma spawnCoin_frame:
  "score (spawnCoin E R w) = score w \<and> player (spawnCoin E R w) = player w
   \<and> frameCount (spawnCoin E R w) = frameCount w"
  by (simp add: spawnCoin_def)

lemma obstacleCadence_frame:
  "score (obstacleCadence E R d w) = score w \<and> player (obstacleCadence E R d w) = player w"
  by (simp add: obstacleCadence_def spawnObstacle_frame)

lemma windZoneCadence_frame:
  "score (windZoneCadence E R d w) = score w \<and> player (windZoneCadence E R d w) = player w"
  by (simp add: windZoneCadence_def spawnWindZone_frame)

lemma powerUpCadence_frame:
  "score (powerUpCadence E R w) = score w \<and> player (powerUpCadence E R w) = player w"
  by (simp add: powerUpCadence_def spawnPowerUp_frame)

lemma coinCadence_frame:
  "score (coinCadence E R w) = score w \<and> player (coinCadence E R w) = player w"
  by (simp add: coinCadence_def spawnCoin_frame)

lemma spawnEntities_frame:
  "score (spawnEntities E R d w) = score w \<and> player (spawnEntities E R d w) = player w"
  by (simp add: spawnEntities_def obstacleCadence_frame windZoneCadence_frame
      powerUpCadence_frame coinCadence_frame)

lemma update_playing:
  assumes "gameState E = PLAYING" "\<not> isPaused E"
  shows "kinematics (player (update E R w)) = kinematics (tickPlayer E R w)"
    and "score (update E R w) = score w +
       \<lfloor>vy (tickPlayer E R w)
          * worldSpeedMultiplier E (tickDifficulty w) (hasPowerUp SLOW_MOTION (activePowerUps w))
          * scoreMultiplier E (tickDifficulty w)\<rfloor>"
  using assms
  by (simp_all add: update_def Let_def tickPlayer_def tickWorld_def tickDifficulty_def updateObstacles_frame
      afterObstacles_frame trackObjectives_frame spawnEntities_frame gustLogic_frame
      addScore_def distanceTraveled_def)

subsection \<open>Difficulty: results\<close>

lemma difficulty_range: "0 \<le> difficulty s \<and> difficulty s \<le> 1"
  by (simp add: difficulty_def min_def max_def)

text \<open>
  Claim C7. For every raw score \<open>s\<close> the difficulty computed at the start of a tick is
  \<open>clamp((s - 200) / 5000, 0, 1)\<close>; it lies in \<open>[0, 1]\<close>, is \<open>0\<close> for every
  \<open>s \<le> 200\<close> and exactly \<open>1\<close> for every \<open>s \<ge> 5200\<close>.
\<close>

theorem difficulty_is_clamp:
  "difficulty s = clamp ((s - 200) / 5000) 0 1
   \<and> 0 \<le> difficulty s \<and> difficulty s \<le> 1
   \<and> (s \<le> 200 \<longrightarrow> difficulty s = 0)
   \<and> (5200 \<le> s \<longrightarrow> difficulty s = 1)"
  by (simp add: difficulty_def clamp_def min_def max_def)

theorem difficulty_is_clamp_witness:
  "difficulty 5200 = clamp ((5200 - 200) / 5000) 0 1
   \<and> difficulty 5200 = 1 \<and> difficulty 6000 = 1
   \<and> difficulty 200 = 0 \<and> difficulty 0 = 0
   \<and> difficulty 2700 = 1 / 2"
proof -
  have a: "difficulty 5200 = clamp ((5200 - 200) / 5000) 0 1 \<and> difficulty 5200 = 1"
    using difficulty_is_clamp [of 5200] by simp
  have b: "difficulty 6000 = 1" using difficulty_is_clamp [of 6000] by simp
  have c: "difficulty 200 = 0" using difficulty_is_clamp [of 200] by simp
  have d: "difficulty 0 = 0" using difficulty_is_clamp [of 0] by simp
  have e: "difficulty 2700 = 1 / 2"
    using difficulty_is_clamp [of 2700] by (simp add: clamp_def)
  from a b c d e show ?thesis by simp
qed

subsection \<open>Level progress and level-complete calls through the tick\<close>

lemma trackObjective_pending: "noDamagePending obj \<Longrightarrow> trackObjective dpt el obj = obj"
  by (simp add: noDamagePending_def trackObjective_def)

lemma handlers_pending:
  "noDamagePending obj \<Longrightarrow> noDamagePending (avoidedObstacle obj)"
  "noDamagePending obj \<Longrightarrow> noDamagePending (tookDamage obj)"
  "noDamagePending obj \<Longrightarrow> noDamagePending (collectedCoin obj)"
  by (simp_all add: noDamagePending_def avoidedObstacle_def tookDamage_def collectedCoin_def)

lemma list_ex_map_keeps:
  assumes "\<And>x. P x \<Longrightarrow> P (f x)" "list_ex P xs"
  shows "list_ex P (map f xs)"
  using assms by (auto simp: list_ex_iff)

lemma updateProgress_pending:
  assumes "\<And>obj. noDamagePending obj \<Longrightarrow> noDamagePending (f obj)" "pendingNoDamage w"
  shows "pendingNoDamage (updateProgress E lp0 f w)"
  using assms(2) list_ex_map_keeps [of noDamagePending f, OF assms(1)]
  by (auto simp: pendingNoDamage_def updateProgress_def split: option.splits)

lemma updateProgress_gameOvers: "gameOvers (updateProgress E lp0 f w) = gameOvers w"
  by (simp add: updateProgress_def split: option.splits)

lemma levelCompletes_updateProgress:
  "levelCompletes (updateProgress E lp0 f w) = levelCompletes w"
  by (simp add: levelCompletes_def updateProgress_gameOvers)

lemma obstacleTurn_progress:
  assumes "obstacleTurn E lp0 t obs w = (r, w')"
  shows "levelCompletes w' = levelCompletes w \<and> (pendingNoDamage w \<longrightarrow> pendingNoDamage w')"
proof -
  have a: "pendingNoDamage w \<Longrightarrow> pendingNoDamage (updateProgress E lp0 avoidedObstacle w)"
    by (rule updateProgress_pending) (simp_all add: handlers_pending)
  have b: "pendingNoDamage w \<Longrightarrow> pendingNoDamage (updateProgress E lp0 tookDamage w)"
    by (rule updateProgress_pending) (simp_all add: handlers_pending)
  have c: "\<And>v x. pendingNoDamage (v\<lparr>gameOvers := x, returned := True\<rparr>) = pendingNoDamage v"
    "\<And>v x y. pendingNoDamage (v\<lparr>activePowerUps := x, player := y\<rparr>) = pendingNoDamage v"
    by (simp_all add: pendingNoDamage_def)
  have d: "\<And>v x y. levelCompletes (v\<lparr>activePowerUps := x, player := y\<rparr>) = levelCompletes v"
    "\<And>v s t. levelCompletes (v\<lparr>gameOvers := gameOvers v @ [(s, HitA t)], returned := True\<rparr>)
        = levelCompletes v"
    by (simp_all add: levelCompletes_def isLevelComplete_def)
  from assms show ?thesis
    by (auto simp: obstacleTurn_def Let_def a b c d levelCompletes_updateProgress
        split: if_splits)
qed

lemma obstacleLoop_progress:
  "obstacleLoop E lp0 t os w = (r, w') \<Longrightarrow>
     levelCompletes w' = levelCompletes w \<and> (pendingNoDamage w \<longrightarrow> pendingNoDamage w')"
proof (induction os arbitrary: r w')
  case Nil then show ?case by simp
next
  case (Cons obs rest)
  obtain r1 w1 where a: "obstacleLoop E lp0 t rest w = (r1, w1)" by (metis surj_pair)
  note b = Cons.IH [OF a]
  show ?case
  proof (cases "returned w1")
    case True with Cons.prems a b show ?thesis by simp
  next
    case False
    obtain x w2 where c: "obstacleTurn E lp0 t obs w1 = (x, w2)" by (metis surj_pair)
    from Cons.prems a False c have "w' = w2" by (simp split: option.splits)
    with obstacleTurn_progress [OF c] b show ?thesis by simp
  qed
qed

lemma updateObstacles_progress:
  "levelCompletes (updateObstacles E lp0 t w) = levelCompletes w
   \<and> (pendingNoDamage w \<longrightarrow> pendingNoDamage (updateObstacles E lp0 t w))"
proof -
  obtain r w1 where a: "obstacleLoop E lp0 t (obstacles w) w = (r, w1)" by (metis surj_pair)
  from obstacleLoop_progress [OF a] a show ?thesis
    by (simp add: updateObstacles_def levelCompletes_def pendingNoDamage_def)
qed

lemma powerUpTurn_progress:
  "powerUpTurn t u w = (r, w') \<Longrightarrow>
     gameOvers w' = gameOvers w \<and> levelProgress w' = levelProgress w"
  by (auto simp: powerUpTurn_def Let_def split: if_splits)

lemma powerUpLoop_progress:
  "powerUpLoop t us w = (r, w') \<Longrightarrow>
     gameOvers w' = gameOvers w \<and> levelProgress w' = levelProgress w"
proof (induction us arbitrary: r w')
  case Nil then show ?case by simp
next
  case (Cons u rest)
  obtain r1 w1 where a: "powerUpLoop t rest w = (r1, w1)" by (metis surj_pair)
  obtain x w2 where c: "powerUpTurn t u w1 = (x, w2)" by (metis surj_pair)
  from Cons.prems a c have "w' = w2" by (simp split: option.splits)
  with Cons.IH [OF a] powerUpTurn_progress [OF c] show ?case by simp
qed

lemma updatePowerUps_progress:
  "levelCompletes (updatePowerUps t w) = levelCompletes w
   \<and> pendingNoDamage (updatePowerUps t w) = pendingNoDamage w"
proof -
  obtain r w1 where a: "powerUpLoop t (powerUps w) w = (r, w1)" by (metis surj_pair)
  from powerUpLoop_progress [OF a] a show ?thesis
    by (simp add: updatePowerUps_def levelCompletes_def pendingNoDamage_def)
qed

lemma coinTurn_progress:
  assumes "coinTurn E lp0 t c w = (r, w')"
  shows "levelCompletes w' = levelCompletes w \<and> (pendingNoDamage w \<longrightarrow> pendingNoDamage w')"
proof -
  have a: "\<And>v. pendingNoDamage v \<Longrightarrow> pendingNoDamage (updateProgress E lp0 collectedCoin v)"
    by (rule updateProgress_pending) (simp_all add: handlers_pending)
  have b: "\<And>v n. pendingNoDamage (v\<lparr>coinCollects := n\<rparr>) = pendingNoDamage v"
    "\<And>v n. levelCompletes (v\<lparr>coinCollects := n\<rparr>) = levelCompletes v"
    by (simp_all add: pendingNoDamage_def levelCompletes_def)
  from assms show ?thesis
    by (auto simp: coinTurn_def Let_def a b levelCompletes_updateProgress split: if_splits)
qed

lemma coinLoop_progress:
  "coinLoop E lp0 t cs w = (r, w') \<Longrightarrow>
     levelCompletes w' = levelCompletes w \<and> (pendingNoDamage w \<longrightarrow> pendingNoDamage w')"
proof (induction cs arbitrary: r w')
  case Nil then show ?case by simp
next
  case (Cons c rest)
  obtain r1 w1 where a: "coinLoop E lp0 t rest w = (r1, w1)" by (metis surj_pair)
  obtain x w2 where c: "coinTurn E lp0 t c w1 = (x, w2)" by (metis surj_pair)
  from Cons.prems a c have "w' = w2" by (simp split: option.splits)
  with Cons.IH [OF a] coinTurn_progress [OF c] show ?case by simp
qed

lemma updateCoins_progress:
  "levelCompletes (updateCoins E lp0 t w) = levelCompletes w
   \<and> (pendingNoDamage w \<longrightarrow> pendingNoDamage (updateCoins E lp0 t w))"
proof -
  obtain r w1 where a: "coinLoop E lp0 t (coins w) w = (r, w1)" by (metis surj_pair)
  from coinLoop_progress [OF a] a show ?thesis
    by (simp add: updateCoins_def levelCompletes_def pendingNoDamage_def)
qed

lemma afterObstacles_progress:
  "levelCompletes (afterObstacles E lp0 t w) = levelCompletes w
   \<and> (pendingNoDamage w \<longrightarrow> pendingNoDamage (afterObstacles E lp0 t w))"
proof -
  have b: "\<And>v x n. pendingNoDamage (v\<lparr>player := x, frameCount := n\<rparr>) = pendingNoDamage v"
    "\<And>v x n. levelCompletes (v\<lparr>player := x, frameCount := n\<rparr>) = levelCompletes v"
    by (simp_all add: pendingNoDamage_def levelCompletes_def)
  show ?thesis
    using updatePowerUps_progress [of t w] updateCoins_progress [of E lp0 t "updatePowerUps t w"]
    by (simp add: afterObstacles_def Let_def b)
qed

lemma phases_keep_progress:
  "levelProgress (gustLogic E R d w) = levelProgress w \<and> gameOvers (gustLogic E R d w) = gameOvers w"
  "levelProgress (addScore E d t w) = levelProgress w \<and> gameOvers (addScore E d t w) = gameOvers w"
  "levelProgress (spawnEntities E R d w) = levelProgress w \<and> gameOvers (spawnEntities E R d w) = gameOvers w"
  by (simp_all add: gustLogic_def addScore_def Let_def spawnEntities_def coinCadence_def
      powerUpCadence_def windZoneCadence_def obstacleCadence_def spawnObstacle_def
      spawnWindZone_def spawnPowerUp_def spawnCoin_def)

lemma trackObjectives_levelCompletes:
  "levelCompletes (trackObjectives E w) = levelCompletes w @
     (case levelProgress w of
        None \<Rightarrow> []
      | Some lp \<Rightarrow>
          (case selectedChallengeLevel E of
             None \<Rightarrow> []
           | Some lvl \<Rightarrow>
               if gameMode E = CHALLENGE \<and> allCompleted E w lp
               then [(score w div 10, LevelComplete lvl)] else []))"
  by (simp add: trackObjectives_def levelCompletes_def isLevelComplete_def allCompleted_def
      trackedObjectives_def Let_def split: option.splits)

lemma pending_not_allCompleted:
  assumes "list_ex noDamagePending (objectives lp)"
  shows "\<not> allCompleted E w lp \<and> list_ex noDamagePending (trackedObjectives E w lp)"
proof -
  from assms obtain obj where o: "obj \<in> set (objectives lp)" "noDamagePending obj"
    by (auto simp: list_ex_iff)
  let ?f = "trackObjective (score w div 10) ((now E - startTime lp) / 1000)"
  have "?f obj = obj" using o(2) by (rule trackObjective_pending)
  with o(1) have m: "obj \<in> set (trackedObjectives E w lp)"
    by (force simp: trackedObjectives_def)
  from o(2) have "\<not> completed obj" by (simp add: noDamagePending_def)
  with m o(2) show ?thesis by (auto simp: allCompleted_def list_all_iff list_ex_iff)
qed

lemma trackObjectives_pending:
  assumes "pendingNoDamage w"
  shows "pendingNoDamage (trackObjectives E w) \<and> levelCompletes (trackObjectives E w) = levelCompletes w"
proof -
  from assms obtain lp where lp: "levelProgress w = Some lp" "list_ex noDamagePending (objectives lp)"
    by (auto simp: pendingNoDamage_def split: option.splits)
  note n = pending_not_allCompleted [OF lp(2), of E w]
  have a: "levelCompletes (trackObjectives E w) = levelCompletes w"
    using lp(1) n by (simp add: trackObjectives_levelCompletes split: option.splits)
  have b: "pendingNoDamage (trackObjectives E w)"
    using lp n assms
    by (simp add: trackObjectives_def pendingNoDamage_def Let_def allCompleted_def
        trackedObjectives_def split: option.splits)
  from a b show ?thesis by simp
qed

lemma update_progress_playing:
  assumes "gameState E = PLAYING" "\<not> isPaused E"
  shows "levelCompletes (update E R w) = levelCompletes w @
     (case levelProgress w of
        None \<Rightarrow> []
      | Some lp \<Rightarrow>
          (case selectedChallengeLevel E of
             None \<Rightarrow> []
           | Some lvl \<Rightarrow>
               if gameMode E = CHALLENGE \<and> allCompleted E (update E R w) lp
               then [(score (update E R w) div 10, LevelComplete lvl)] else []))"
proof -
  define d where "d = difficulty (real_of_int (score w))"
  define wa where "wa = gustLogic E R d (w\<lparr>returned := False\<rparr>)"
  define wb where "wb = wa\<lparr>player := physics E d wa\<rparr>"
  define t where "t = distanceTraveled E d wb"
  define wc where "wc = addScore E d t wb"
  define wd where "wd = trackObjectives E wc"
  define we where "we = spawnEntities E R d wd"
  define wg where "wg = we\<lparr>activePowerUps := updateTimers (activePowerUps we),
     windZones := moveWindZones t (windZones we)\<rparr>"
  define wh where "wh = updateObstacles E (levelProgress w) t wg"
  have u: "update E R w = (if returned wh then wh else afterObstacles E (levelProgress w) t wh)"
    using assms
    by (simp add: update_def Let_def d_def wa_def wb_def t_def wc_def wd_def we_def wg_def wh_def)
  have sc: "score (update E R w) = score wc"
    by (simp add: u wh_def wg_def we_def wd_def updateObstacles_frame afterObstacles_frame
        spawnEntities_frame trackObjectives_frame)
  have pc: "levelProgress wc = levelProgress w" "gameOvers wc = gameOvers w"
    by (simp_all add: wc_def wb_def wa_def phases_keep_progress)
  have lc: "levelCompletes wc = levelCompletes w"
    by (simp add: levelCompletes_def pc)
  have ac: "\<And>lp. allCompleted E wc lp = allCompleted E (update E R w) lp"
    by (simp add: allCompleted_def trackedObjectives_def sc)
  have ld: "levelCompletes (update E R w) = levelCompletes wd"
  proof -
    have "levelCompletes wg = levelCompletes wd"
      by (simp add: wg_def we_def levelCompletes_def phases_keep_progress)
    then show ?thesis
      by (simp add: u wh_def updateObstacles_progress afterObstacles_progress)
  qed
  show ?thesis
    unfolding ld wd_def trackObjectives_levelCompletes lc pc sc [symmetric] using ac
    by (simp split: option.splits)
qed

lemma update_pending:
  assumes "pendingNoDamage w"
  shows "pendingNoDamage (update E R w) \<and> levelCompletes (update E R w) = levelCompletes w"
proof (cases "gameState E = PLAYING \<and> \<not> isPaused E")
  case False
  then have "update E R w = w\<lparr>returned := False\<rparr>" by (auto simp: update_def Let_def)
  with assms show ?thesis by (simp add: pendingNoDamage_def levelCompletes_def)
next
  case True
  define d where "d = difficulty (real_of_int (score w))"
  define wa where "wa = gustLogic E R d (w\<lparr>returned := False\<rparr>)"
  define wb where "wb = wa\<lparr>player := physics E d wa\<rparr>"
  define t where "t = distanceTraveled E d wb"
  define wc where "wc = addScore E d t wb"
  define wd where "wd = trackObjectives E wc"
  define we where "we = spawnEntities E R d wd"
  define wg where "wg = we\<lparr>activePowerUps := updateTimers (activePowerUps we),
     windZones := moveWindZones t (windZones we)\<rparr>"
  define wh where "wh = updateObstacles E (levelProgress w) t wg"
  have u: "update E R w = (if returned wh then wh else afterObstacles E (levelProgress w) t wh)"
    using True
    by (simp add: update_def Let_def d_def wa_def wb_def t_def wc_def wd_def we_def wg_def wh_def)
  have pc: "levelProgress wc = levelProgress w" "gameOvers wc = gameOvers w"
    by (simp_all add: wc_def wb_def wa_def phases_keep_progress)
  have c: "pendingNoDamage wc" "levelCompletes wc = levelCompletes w"
    using assms by (simp_all add: pendingNoDamage_def levelCompletes_def pc)
  have dd: "pendingNoDamage wd" "levelCompletes wd = levelCompletes w"
    using trackObjectives_pending [OF c(1), of E] c(2) by (simp_all add: wd_def)
  have g: "pendingNoDamage wg" "levelCompletes wg = levelCompletes w"
    using dd by (simp_all add: wg_def we_def pendingNoDamage_def levelCompletes_def
        phases_keep_progress)
  have h: "pendingNoDamage wh" "levelCompletes wh = levelCompletes w"
    using updateObstacles_progress [of E "levelProgress w" t wg] g by (simp_all add: wh_def)
  show ?thesis
    using h afterObstacles_progress [of E "levelProgress w" t wh] by (simp add: u)
qed

lemma applyInput_progress:
  "pendingNoDamage (applyInput i w) = pendingNoDamage w
   \<and> levelCompletes (applyInput i w) = levelCompletes w"
  by (simp add: applyInput_def pendingNoDamage_def levelCompletes_def)

subsection \<open>Signs of the multipliers\<close>

lemma modeMultiplier_pos: "0 < modeMultiplier m"
  by (cases m) (simp_all add: modeMultiplier_def)

lemma worldSpeedMultiplier_pos: "0 \<le> d \<Longrightarrow> 0 < worldSpeedMultiplier E d b"
proof -
  assume d: "0 \<le> d"
  have "0 \<le> d * modeMultiplier (difficultyMode E)"
    using d modeMultiplier_pos [of "difficultyMode E"] by simp
  then show ?thesis
    by (simp add: worldSpeedMultiplier_def WORLD_SPEED_MULTIPLIER_MAX_def Let_def)
qed

lemma scoreMultiplier_pos: "0 \<le> d \<Longrightarrow> 0 < scoreMultiplier E d"
  by (simp add: scoreMultiplier_def Let_def add_pos_nonneg)

lemma floor_scaled_sign:
  fixes v k :: real
  assumes "0 < k"
  shows "(0 \<le> \<lfloor>v * k\<rfloor>) = (0 \<le> v)"
proof -
  have "(0 \<le> \<lfloor>v * k\<rfloor>) = (0 \<le> v * k)" by (simp add: zero_le_floor)
  also have "\<dots> = (0 \<le> v)" using assms by (simp add: zero_le_mult_iff)
  finally show ?thesis .
qed

lemma update_idle:
  "gameState E \<noteq> PLAYING \<or> isPaused E \<Longrightarrow> update E R w = w\<lparr>returned := False\<rparr>"
  by (auto simp: update_def Let_def)

subsection \<open>Shield (claim C1)\<close>

text \<open>
  Claim C1 says that a player who holds a SHIELD collected on an earlier tick (stored
  with time left \<open>-1\<close>; the comment at line 948 reads: lasts until hit) survives an
  obstacle hit, with the shield and the obstacle removed. The code does not get there: the timer loop
  (lines 788 to 795) runs before the obstacle loop, decrements the \<open>-1\<close> to
  \<open>-2\<close> and splices the entry out, since \<open>-2 \<le> 0\<close>. Below, the first tick
  collects the shield and the second tick, in which the bird reaches the hitbox, ends
  the run.
\<close>

theorem collected_shield_expires_before_hit:
  "activePowerUps (run [steady] shieldPickupWorld)
     = [\<lparr>atype = SHIELD, timeLeft = - 1, duration = - 1\<rparr>]
   \<and> gameOvers (run [steady] shieldPickupWorld) = []
   \<and> activePowerUps (run [steady, steady] shieldPickupWorld) = []
   \<and> gameOvers (run [steady, steady] shieldPickupWorld) = [(0, HitA BIRD)]
   \<and> updateTimers [\<lparr>atype = SHIELD, timeLeft = - 1, duration = - 1\<rparr>] = []"
  by code_simp

subsection \<open>Score (claim C2)\<close>

text \<open>
  Claim C2 as stated, the raw score never decreases over a tick, fails when the player
  rises: with the umbrella open and vertical velocity \<open>-5\<close> the tick takes the raw
  score from 100 to 95.
\<close>

theorem score_drops_counterexample:
  "score risingWorld = 100 \<and> score (update demoEnv quietRnd risingWorld) = 95"
  by code_simp

text \<open>
  Claim C2, amended. Over a playing tick the raw score does not decrease exactly when
  the vertical velocity the physics of that tick leaves the player with is not negative
  (the score grows by the floor of that velocity times two positive multipliers); a tick
  that is paused or not playing leaves the score as it is.
\<close>

theorem score_step:
  "(gameState E = PLAYING \<and> \<not> isPaused E \<longrightarrow>
      (score w \<le> score (update E R w)) = (0 \<le> vy (player (update E R w))))
   \<and> (gameState E \<noteq> PLAYING \<longrightarrow> score (update E R w) = score w)
   \<and> (isPaused E \<longrightarrow> score (update E R w) = score w)"
proof (intro conjI impI)
  assume a: "gameState E = PLAYING \<and> \<not> isPaused E"
  let ?d = "tickDifficulty w"
  let ?k = "worldSpeedMultiplier E ?d (hasPowerUp SLOW_MOTION (activePowerUps w)) * scoreMultiplier E ?d"
  have d: "0 \<le> ?d" by (simp add: tickDifficulty_def difficulty_range)
  have k: "0 < ?k" using worldSpeedMultiplier_pos [OF d] scoreMultiplier_pos [OF d] by simp
  have v: "vy (player (update E R w)) = vy (tickPlayer E R w)"
    using update_playing(1) [of E R w] a by (simp add: kinematics_def)
  have s: "score (update E R w) = score w + \<lfloor>vy (tickPlayer E R w) * ?k\<rfloor>"
    using update_playing(2) [of E R w] a by (simp add: mult.assoc)
  show "(score w \<le> score (update E R w)) = (0 \<le> vy (player (update E R w)))"
    using floor_scaled_sign [OF k, of "vy (tickPlayer E R w)"] v s by simp
next
  assume "gameState E \<noteq> PLAYING"
  then show "score (update E R w) = score w" by (simp add: update_idle)
next
  assume "isPaused E"
  then show "score (update E R w) = score w" by (simp add: update_idle)
qed

theorem score_step_witness:
  "score emptyWorld \<le> score (update demoEnv quietRnd emptyWorld)
   \<and> 0 \<le> vy (player (update demoEnv quietRnd emptyWorld))
   \<and> \<not> score risingWorld \<le> score (update demoEnv quietRnd risingWorld)
   \<and> \<not> 0 \<le> vy (player (update demoEnv quietRnd risingWorld))
   \<and> score (update (demoEnv\<lparr>isPaused := True\<rparr>) quietRnd risingWorld) = score risingWorld"
proof -
  have p: "gameState demoEnv = PLAYING \<and> \<not> isPaused demoEnv" by (simp add: demoEnv_def)
  have q: "isPaused (demoEnv\<lparr>isPaused := True\<rparr>)" by simp
  have v1: "0 \<le> vy (player (update demoEnv quietRnd emptyWorld))" by code_simp
  have v2: "\<not> 0 \<le> vy (player (update demoEnv quietRnd risingWorld))" by code_simp
  from score_step [of demoEnv emptyWorld quietRnd] p v1
  have a: "score emptyWorld \<le> score (update demoEnv quietRnd emptyWorld)" by simp
  from score_step [of demoEnv risingWorld quietRnd] p v2
  have b: "\<not> score risingWorld \<le> score (update demoEnv quietRnd risingWorld)" by simp
  from score_step [of "demoEnv\<lparr>isPaused := True\<rparr>" risingWorld quietRnd] q
  have c: "score (update (demoEnv\<lparr>isPaused := True\<rparr>) quietRnd risingWorld) = score risingWorld"
    by simp
  from a b c v1 v2 show ?thesis by simp
qed

subsection \<open>Game-over emissions (claim C3)\<close>

text \<open>
  Claim C3 says that a tick emits at most one game-over and stops at once. The fatal
  hit does (line 904 returns); the level-complete emission of the tracker (line 658)
  has no \<^verbatim>\<open>return\<close>. In the tick below level 1 completes and a cloud lies on the
  player: the sink is called twice. Without the cloud the tick goes on past the
  emission and ends with the frame counter stepped.
\<close>

theorem two_game_overs_in_one_tick:
  "gameOvers finishAndCrashWorld = []
   \<and> gameOvers (update challengeEnv quietRnd finishAndCrashWorld)
        = [(500, LevelComplete 1), (500, HitA CLOUD)]
   \<and> gameOvers (update challengeEnv quietRnd finishWorld) = [(500, LevelComplete 1)]
   \<and> frameCount finishWorld = 1
   \<and> frameCount (update challengeEnv quietRnd finishWorld) = 2"
  by code_simp

subsection \<open>Objective tracking (claims C4, C5, C6)\<close>

text \<open>
  Claim C4 says that the tracker completes every objective exactly when its current
  value has reached its target. Level 2 starts its NO_DAMAGE objective with current 1
  and target 1; the tick below completes the two other objectives of the level and
  leaves this one open, so the level does not complete.
\<close>

theorem no_damage_objective_left_open:
  "levelProgress (update level2Env quietRnd level2World)
     = Some \<lparr>objectives =
         [\<lparr>jtype = SURVIVE_TIME, target = 90, current = 90, completed = True\<rparr>,
          \<lparr>jtype = REACH_DEPTH, target = 1000, current = 1000, completed = True\<rparr>,
          \<lparr>jtype = NO_DAMAGE, target = 1, current = 1, completed = False\<rparr>],
        startTime = 0, timeElapsed = 90\<rparr>
   \<and> gameOvers (update level2Env quietRnd level2World) = []"
  by code_simp

text \<open>
  Claim C5 as stated, an empty objective list does not complete the level, fails: the
  tick calls the game-over sink with the level-complete cause.
\<close>

theorem empty_objectives_counterexample:
  "gameOvers emptyLevelWorld = []
   \<and> gameOvers (update emptyLevelEnv quietRnd emptyLevelWorld) = [(0, LevelComplete 9)]"
  by code_simp

text \<open>
  Claim C5, amended. In a playing tick of the challenge mode with a progress object and
  a selected level, the level-complete event is emitted exactly when every objective is
  completed after the tracker has updated the list; on the empty list that holds, so
  the event is emitted.
\<close>

theorem level_complete_iff_all_completed:
  assumes "gameState E = PLAYING" "\<not> isPaused E" "gameMode E = CHALLENGE"
    and "levelProgress w = Some lp" "selectedChallengeLevel E = Some lvl"
  shows "levelCompletes (update E R w) = levelCompletes w @
         (if allCompleted E (update E R w) lp
          then [(score (update E R w) div 10, LevelComplete lvl)] else [])
    \<and> (objectives lp = [] \<longrightarrow> allCompleted E (update E R w) lp)"
  using update_progress_playing [OF assms(1,2), of R w] assms(3-5)
  by (simp add: allCompleted_def trackedObjectives_def)

theorem level_complete_iff_all_completed_witness:
  "levelCompletes (update challengeEnv quietRnd finishWorld) = [(500, LevelComplete 1)]
   \<and> allCompleted challengeEnv (update challengeEnv quietRnd finishWorld)
        \<lparr>objectives =
           [\<lparr>jtype = REACH_DEPTH, target = 500, current = 499, completed = False\<rparr>,
            \<lparr>jtype = COLLECT_COINS, target = 10, current = 10, completed = True\<rparr>],
         startTime = 0, timeElapsed = 0\<rparr>
   \<and> levelCompletes (update emptyLevelEnv quietRnd emptyLevelWorld)
       = [(score (update emptyLevelEnv quietRnd emptyLevelWorld) div 10, LevelComplete 9)]"
proof -
  let ?lp = "\<lparr>objectives =
           [\<lparr>jtype = REACH_DEPTH, target = 500, current = 499, completed = False\<rparr>,
            \<lparr>jtype = COLLECT_COINS, target = 10, current = 10, completed = True\<rparr>],
         startTime = 0, timeElapsed = 0\<rparr>"
  have h: "gameState challengeEnv = PLAYING" "\<not> isPaused challengeEnv"
    "gameMode challengeEnv = CHALLENGE" "selectedChallengeLevel challengeEnv = Some 1"
    by (simp_all add: challengeEnv_def demoEnv_def)
  have l: "levelProgress finishWorld = Some ?lp" "levelCompletes finishWorld = []"
    by (simp_all add: finishWorld_def emptyWorld_def levelCompletes_def)
  have s: "score (update challengeEnv quietRnd finishWorld) div 10 = 500" by code_simp
  have c: "allCompleted challengeEnv (update challengeEnv quietRnd finishWorld) ?lp" by code_simp
  have h2: "gameState emptyLevelEnv = PLAYING" "\<not> isPaused emptyLevelEnv"
    "gameMode emptyLevelEnv = CHALLENGE" "selectedChallengeLevel emptyLevelEnv = Some 9"
    by (simp_all add: emptyLevelEnv_def demoEnv_def)
  have l2: "levelProgress emptyLevelWorld = Some \<lparr>objectives = [], startTime = 0, timeElapsed = 0\<rparr>"
    "levelCompletes emptyLevelWorld = []"
    by (simp_all add: emptyLevelWorld_def emptyWorld_def levelCompletes_def)
  from level_complete_iff_all_completed [OF h(1-3) l(1) h(4), of quietRnd] l(2) s c
  have a: "levelCompletes (update challengeEnv quietRnd finishWorld) = [(500, LevelComplete 1)]"
    by simp
  from level_complete_iff_all_completed [OF h2(1-3) l2(1) h2(4), of quietRnd] l2(2)
  have b: "levelCompletes (update emptyLevelEnv quietRnd emptyLevelWorld)
       = [(score (update emptyLevelEnv quietRnd emptyLevelWorld) div 10, LevelComplete 9)]"
    by simp
  from a b c show ?thesis by simp
qed

text \<open>
  Claim C6. When the progress object holds a NO_DAMAGE objective that is not
  completed, it still does after any run of ticks, and the run emits no level-complete
  event; the tracker returns every NO_DAMAGE objective as it is.
\<close>

theorem no_damage_never_completes:
  assumes "pendingNoDamage w"
  shows "pendingNoDamage (run is w) \<and> levelCompletes (run is w) = levelCompletes w
    \<and> (\<forall>depth elapsed obj. jtype obj = NO_DAMAGE \<longrightarrow> trackObjective depth elapsed obj = obj)"
proof -
  have t: "\<forall>depth elapsed obj. jtype obj = NO_DAMAGE \<longrightarrow> trackObjective depth elapsed obj = obj"
    by (simp add: trackObjective_def)
  have "pendingNoDamage (run is w) \<and> levelCompletes (run is w) = levelCompletes w"
    using assms
  proof (induction "is" arbitrary: w)
    case Nil then show ?case by simp
  next
    case (Cons i rest)
    let ?w1 = "update (env i) (rnd i) (applyInput i w)"
    have p: "pendingNoDamage (applyInput i w)" using Cons.prems by (simp add: applyInput_progress)
    have s: "pendingNoDamage ?w1 \<and> levelCompletes ?w1 = levelCompletes w"
      using update_pending [OF p, of "env i" "rnd i"] by (simp add: applyInput_progress)
    with Cons.IH [of ?w1] show ?case by simp
  qed
  with t show ?thesis by simp
qed

theorem no_damage_never_completes_witness:
  "pendingNoDamage level2World
   \<and> pendingNoDamage (run [level2Tick, level2Tick] level2World)
   \<and> levelCompletes (run [level2Tick, level2Tick] level2World) = []
   \<and> trackObjective 1000 90 \<lparr>jtype = NO_DAMAGE, target = 1, current = 1, completed = False\<rparr>
       = \<lparr>jtype = NO_DAMAGE, target = 1, current = 1, completed = False\<rparr>"
proof -
  have p: "pendingNoDamage level2World" by code_simp
  have l: "levelCompletes level2World = []"
    by (simp add: level2World_def emptyWorld_def levelCompletes_def)
  from no_damage_never_completes [OF p, of "[level2Tick, level2Tick]"] p l
  show ?thesis by simp
qed

subsection \<open>Screen bounds (claim C8)\<close>

lemma clampBounds_range:
  assumes "100 \<le> canvasWidth E" "200 \<le> canvasHeight E"
  shows "50 \<le> px (clampBounds E p) \<and> px (clampBounds E p) \<le> canvasWidth E - 50
    \<and> 100 \<le> py (clampBounds E p) \<and> py (clampBounds E p) \<le> canvasHeight E - 100"
  using assms by (simp add: clampBounds_def PLAYER_MARGIN_def Let_def)

lemma clampBounds_vx:
  "px p < 50 \<or> px p > canvasWidth E - 50 \<Longrightarrow> vx (clampBounds E p) = 0"
  by (auto simp: clampBounds_def PLAYER_MARGIN_def Let_def)

lemma clampVelocity_keeps:
  "px (clampVelocity a b t p) = px p \<and> py (clampVelocity a b t p) = py p
   \<and> vx (clampVelocity a b t p) = vx p"
  by (simp add: clampVelocity_def Let_def)

lemma tickPlayer_clamped:
  "px (tickPlayer E R w) = px (clampBounds E (tickMoved E R w))
   \<and> py (tickPlayer E R w) = py (clampBounds E (tickMoved E R w))
   \<and> vx (tickPlayer E R w) = vx (clampBounds E (tickMoved E R w))"
  by (simp add: tickPlayer_def tickMoved_def physics_def Let_def clampVelocity_keeps)

text \<open>
  Claim C8 as stated holds for no tick on a canvas less than 100 wide: the two
  horizontal clamps (lines 555 to 562) then leave the player at \<open>width - 50\<close>, left of
  the margin of 50.
\<close>

theorem narrow_canvas_counterexample:
  "canvasWidth narrowEnv = 80 \<and> px (player (update narrowEnv quietRnd narrowWorld)) = 30"
  by code_simp

text \<open>
  Claim C8, amended. On a canvas at least 100 wide and 200 high, after every playing
  tick the horizontal position lies in \<open>[50, width - 50]\<close> and the vertical position
  in \<open>[100, height - 100]\<close>, and the horizontal velocity is zero when the position
  had left the horizontal band before the clamp.
\<close>

theorem player_stays_on_screen:
  assumes "gameState E = PLAYING" "\<not> isPaused E"
    and "100 \<le> canvasWidth E" "200 \<le> canvasHeight E"
  shows "50 \<le> px (player (update E R w)) \<and> px (player (update E R w)) \<le> canvasWidth E - 50
    \<and> 100 \<le> py (player (update E R w)) \<and> py (player (update E R w)) \<le> canvasHeight E - 100
    \<and> (px (tickMoved E R w) < 50 \<or> px (tickMoved E R w) > canvasWidth E - 50
         \<longrightarrow> vx (player (update E R w)) = 0)"
proof -
  have k: "kinematics (player (update E R w)) = kinematics (tickPlayer E R w)"
    using update_playing(1) assms(1,2) by simp
  then have e: "px (player (update E R w)) = px (clampBounds E (tickMoved E R w))"
    "py (player (update E R w)) = py (clampBounds E (tickMoved E R w))"
    "vx (player (update E R w)) = vx (clampBounds E (tickMoved E R w))"
    by (simp_all add: kinematics_def tickPlayer_clamped)
  show ?thesis
    using clampBounds_range [OF assms(3,4), of "tickMoved E R w"]
      clampBounds_vx [of "tickMoved E R w" E] e by auto
qed

theorem player_stays_on_screen_witness:
  "px (tickMoved demoEnv quietRnd edgeWorld) = 35
   \<and> px (player (update demoEnv quietRnd edgeWorld)) = 50
   \<and> vx (player (update demoEnv quietRnd edgeWorld)) = 0
   \<and> 100 \<le> py (player (update demoEnv quietRnd edgeWorld))
   \<and> py (player (update demoEnv quietRnd edgeWorld)) \<le> 500"
proof -
  have h: "gameState demoEnv = PLAYING" "\<not> isPaused demoEnv"
    "100 \<le> canvasWidth demoEnv" "200 \<le> canvasHeight demoEnv" "canvasHeight demoEnv = 600"
    by (simp_all add: demoEnv_def)
  have m: "px (tickMoved demoEnv quietRnd edgeWorld) = 35" by code_simp
  have x: "px (player (update demoEnv quietRnd edgeWorld)) = 50" by code_simp
  from player_stays_on_screen [OF h(1-4), of quietRnd edgeWorld] m x h(5)
  show ?thesis by simp
qed

subsection \<open>Collision test (claim C9)\<close>

lemma moveObstacle_size:
  "owidth (moveObstacle E t obs) = owidth obs \<and> oheight (moveObstacle E t obs) = oheight obs
   \<and> otype (moveObstacle E t obs) = otype obs"
  by (simp add: moveObstacle_def Let_def)






text \<open>
  The amended claim covers every obstacle of the game: the spawner creates obstacles of
  positive width and height (its draw lies in \<open>[0, 1)\<close>), and a tick keeps them so.
\<close>

lemma newObstacle_positive:
  "0 \<le> obsWidth R \<Longrightarrow> positiveSize (newObstacle E R d w)"
  by (simp add: newObstacle_def positiveSize_def Let_def add_pos_nonneg)

lemma moveObstacle_positive: "positiveSize (moveObstacle E t obs) = positiveSize obs"
  by (simp add: positiveSize_def moveObstacle_size)

lemma obstacleTurn_positive:
  "positiveSize obs \<Longrightarrow> obstacleTurn E lp0 t obs w = (Some o1, w') \<Longrightarrow> positiveSize o1"
  by (auto simp: obstacleTurn_def Let_def moveObstacle_positive split: if_splits)

lemma obstacleLoop_positive:
  "list_all positiveSize os \<Longrightarrow> obstacleLoop E lp0 t os w = (r, w') \<Longrightarrow> list_all positiveSize r"
proof (induction os arbitrary: r w')
  case Nil then show ?case by simp
next
  case (Cons obs rest)
  obtain r1 w1 where a: "obstacleLoop E lp0 t rest w = (r1, w1)" by (metis surj_pair)
  from Cons.prems(1) have p: "positiveSize obs" "list_all positiveSize rest" by simp_all
  note b = Cons.IH [OF p(2) a]
  show ?case
  proof (cases "returned w1")
    case True with Cons.prems(2) a b p(1) show ?thesis by auto
  next
    case False
    obtain x w2 where c: "obstacleTurn E lp0 t obs w1 = (x, w2)" by (metis surj_pair)
    show ?thesis
    proof (cases x)
      case None
      with Cons.prems(2) a False c b show ?thesis by auto
    next
      case (Some o1)
      with obstacleTurn_positive [OF p(1)] c have "positiveSize o1" by simp
      with Cons.prems(2) a False c b Some show ?thesis by auto
    qed
  qed
qed

lemma updateObstacles_positive:
  "list_all positiveSize (obstacles w) \<Longrightarrow>
     list_all positiveSize (obstacles (updateObstacles E lp0 t w))"
proof -
  assume p: "list_all positiveSize (obstacles w)"
  obtain r w1 where a: "obstacleLoop E lp0 t (obstacles w) w = (r, w1)" by (metis surj_pair)
  from obstacleLoop_positive [OF p a] a show ?thesis by (simp add: updateObstacles_def)
qed

lemma powerUpTurn_obstacles: "powerUpTurn t u w = (r, w') \<Longrightarrow> obstacles w' = obstacles w"
  by (auto simp: powerUpTurn_def Let_def split: if_splits)

lemma powerUpLoop_obstacles: "powerUpLoop t us w = (r, w') \<Longrightarrow> obstacles w' = obstacles w"
proof (induction us arbitrary: r w')
  case Nil then show ?case by simp
next
  case (Cons u rest)
  obtain r1 w1 where a: "powerUpLoop t rest w = (r1, w1)" by (metis surj_pair)
  obtain x w2 where c: "powerUpTurn t u w1 = (x, w2)" by (metis surj_pair)
  from Cons.prems a c have "w' = w2" by (simp split: option.splits)
  with Cons.IH [OF a] powerUpTurn_obstacles [OF c] show ?case by simp
qed

lemma updateProgress_obstacles: "obstacles (updateProgress E lp0 f w) = obstacles w"
  by (simp add: updateProgress_def split: option.splits)

lemma coinTurn_obstacles: "coinTurn E lp0 t c w = (r, w') \<Longrightarrow> obstacles w' = obstacles w"
  by (auto simp: coinTurn_def Let_def updateProgress_obstacles split: if_splits)

lemma coinLoop_obstacles: "coinLoop E lp0 t cs w = (r, w') \<Longrightarrow> obstacles w' = obstacles w"
proof (induction cs arbitrary: r w')
  case Nil then show ?case by simp
next
  case (Cons c rest)
  obtain r1 w1 where a: "coinLoop E lp0 t rest w = (r1, w1)" by (metis surj_pair)
  obtain x w2 where c: "coinTurn E lp0 t c w1 = (x, w2)" by (metis surj_pair)
  from Cons.prems a c have "w' = w2" by (simp split: option.splits)
  with Cons.IH [OF a] coinTurn_obstacles [OF c] show ?case by simp
qed

lemma afterObstacles_obstacles: "obstacles (afterObstacles E lp0 t w) = obstacles w"
proof -
  obtain r1 w1 where a: "powerUpLoop t (powerUps w) w = (r1, w1)" by (metis surj_pair)
  obtain r2 w2 where b: "coinLoop E lp0 t (coins (w1\<lparr>powerUps := r1\<rparr>)) (w1\<lparr>powerUps := r1\<rparr>) = (r2, w2)"
    by (metis surj_pair)
  from powerUpLoop_obstacles [OF a] coinLoop_obstacles [OF b] a b show ?thesis
    by (simp add: afterObstacles_def updatePowerUps_def updateCoins_def Let_def)
qed

lemma spawnEntities_positive:
  assumes "0 \<le> obsWidth R" "list_all positiveSize (obstacles w)"
  shows "list_all positiveSize (obstacles (spawnEntities E R d w))"
proof -
  have a: "list_all positiveSize (obstacles (obstacleCadence E R d w))"
    using assms by (simp add: obstacleCadence_def spawnObstacle_def newObstacle_positive)
  have b: "\<And>v. obstacles (windZoneCadence E R d v) = obstacles v"
    by (simp add: windZoneCadence_def spawnWindZone_def)
  have c: "\<And>v. obstacles (powerUpCadence E R v) = obstacles v"
    by (simp add: powerUpCadence_def spawnPowerUp_def)
  have e: "\<And>v. obstacles (coinCadence E R v) = obstacles v"
    by (simp add: coinCadence_def spawnCoin_def)
  show ?thesis using a by (simp add: spawnEntities_def b c e)
qed

lemma early_phases_obstacles:
  "obstacles (gustLogic E R d w) = obstacles w"
  "obstacles (addScore E d t w) = obstacles w"
  "obstacles (trackObjectives E w) = obstacles w"
  by (simp_all add: gustLogic_def addScore_def trackObjectives_def Let_def split: option.splits)

lemma update_keeps_positive:
  assumes "0 \<le> obsWidth R" "list_all positiveSize (obstacles w)"
  shows "list_all positiveSize (obstacles (update E R w))"
proof (cases "gameState E = PLAYING \<and> \<not> isPaused E")
  case False
  then have "update E R w = w\<lparr>returned := False\<rparr>" by (auto simp: update_idle)
  with assms(2) show ?thesis by simp
next
  case True
  define d where "d = difficulty (real_of_int (score w))"
  define wa where "wa = gustLogic E R d (w\<lparr>returned := False\<rparr>)"
  define wb where "wb = wa\<lparr>player := physics E d wa\<rparr>"
  define t where "t = distanceTraveled E d wb"
  define wd where "wd = trackObjectives E (addScore E d t wb)"
  define we where "we = spawnEntities E R d wd"
  define wg where "wg = we\<lparr>activePowerUps := updateTimers (activePowerUps we),
     windZones := moveWindZones t (windZones we)\<rparr>"
  define wh where "wh = updateObstacles E (levelProgress w) t wg"
  have u: "update E R w = (if returned wh then wh else afterObstacles E (levelProgress w) t wh)"
    using True
    by (simp add: update_def Let_def d_def wa_def wb_def t_def wd_def we_def wg_def wh_def)
  have "obstacles wd = obstacles w"
    by (simp add: wd_def wb_def wa_def early_phases_obstacles)
  with assms(2) have "list_all positiveSize (obstacles wd)" by simp
  from spawnEntities_positive [OF assms(1) this, of E d]
  have "list_all positiveSize (obstacles wg)" by (simp add: wg_def we_def)
  from updateObstacles_positive [OF this, of E "levelProgress w" t]
  have "list_all positiveSize (obstacles wh)" by (simp add: wh_def)
  then show ?thesis by (simp add: u afterObstacles_obstacles)
qed

lemma run_keeps_positive:
  "list_all (\<lambda>i. 0 \<le> obsWidth (rnd i)) is \<Longrightarrow> list_all positiveSize (obstacles w) \<Longrightarrow>
     list_all positiveSize (obstacles (run is w))"
proof (induction "is" arbitrary: w)
  case Nil then show ?case by simp
next
  case (Cons i rest)
  have "list_all positiveSize (obstacles (applyInput i w))"
    using Cons.prems(2) by (simp add: applyInput_def)
  with Cons.prems(1) have "list_all positiveSize (obstacles (update (env i) (rnd i) (applyInput i w)))"
    by (simp add: update_keeps_positive)
  with Cons.IH Cons.prems(1) show ?case by simp
qed

subsection \<open>Wind breaker (claim C10)\<close>

text \<open>
  With a WIND_BREAKER among the active power-ups the two force paths add nothing: the
  gust path (lines 483 to 490) leaves the velocity at the steering speed and the
  wind-zone path (lines 511 to 545) leaves the player as it is.
\<close>

lemma windBreaker_force_paths:
  "applyGust True g p = p\<lparr>vx := moveSpeed p\<rparr> \<and> applyWindZones True zs p = p"
  by (simp add: applyGust_def applyWindZones_def)

text \<open>
  Claim C10 says that with a WIND_BREAKER active the gust and the wind zones contribute
  nothing to the velocity of the player. The two force paths test the power-up (lines
  485 and 513); the terminal-velocity clamp (line 581) tests only whether a gust is
  active. In the dive below the player holds a WIND_BREAKER and falls at the terminal
  velocity 27: with the gust active the tick leaves the vertical velocity at 27.9, with
  no gust at 27.
\<close>

theorem wind_breaker_gust_lifts_clamp:
  "hasPowerUp WIND_BREAKER (activePowerUps gustyDiveWorld)
   \<and> gactive (windGust gustyDiveWorld)
   \<and> windZones gustyDiveWorld = [diveZone]
   \<and> insideZone (player gustyDiveWorld) diveZone
   \<and> vy (player gustyDiveWorld) = 27
   \<and> vy (player stillDiveWorld) = 27
   \<and> vy (player (update demoEnv quietRnd gustyDiveWorld)) = 279 / 10
   \<and> vy (player (update demoEnv quietRnd stillDiveWorld)) = 27
   \<and> vx (player (update demoEnv quietRnd gustyDiveWorld)) = 0"
  by code_simp

end
